theory Spec2Isabelle
  imports Main "HOL-Library.Word"
begin

unbundle bit_operations_syntax

section \<open>The API server of \<^verbatim>\<open>internal/api\<close>: data model\<close>

text \<open>
  Go strings and byte slices are both sequences of bytes, and the conversions
  \<^verbatim>\<open>[]byte(method)\<close> and \<^verbatim>\<open>string(rawMethod)\<close> keep the bytes as they are, so both
  are lists of 8-bit words here. \<open>str\<close> writes a Go string literal.
\<close>

type_synonym byte = "8 word"
type_synonym bytes = "byte list"

definition str :: "string \<Rightarrow> bytes" where
  "str s = map of_char s"

text \<open>\<^verbatim>\<open>type MessageType uint8\<close> and its constants (\<^verbatim>\<open>iota\<close> from 0).\<close>

type_synonym MessageType = byte

definition MessageTypeUnknown :: MessageType where "MessageTypeUnknown = 0"
definition MessageTypeRequest :: MessageType where "MessageTypeRequest = 1"
definition MessageTypeCallResponse :: MessageType where "MessageTypeCallResponse = 2"
definition MessageTypeCallError :: MessageType where "MessageTypeCallError = 3"
definition MessageTypeResponse :: MessageType where "MessageTypeResponse = 4"
definition MessageTypeError :: MessageType where "MessageTypeError = 5"
definition MessageTypeCall :: MessageType where "MessageTypeCall = 6"

definition IsValid :: "MessageType \<Rightarrow> bool" where
  "IsValid m \<longleftrightarrow> m \<ge> MessageTypeRequest \<and> m \<le> MessageTypeCall"

text \<open>\<^verbatim>\<open>type MessagePackType uint8\<close>.\<close>

definition MessagePackTypeFixedArray3 :: byte where "MessagePackTypeFixedArray3 = 0x93"
definition MessagePackTypeBin8 :: byte where "MessagePackTypeBin8 = 0xC4"
definition MessagePackTypeBin16 :: byte where "MessagePackTypeBin16 = 0xC5"
definition MessagePackTypeBin32 :: byte where "MessagePackTypeBin32 = 0xC6"
definition MessagePackTypeU8 :: byte where "MessagePackTypeU8 = 0xCC"

text \<open>
  \<^verbatim>\<open>type Callback int\<close>, one bit per host operation (\<^verbatim>\<open>1 << iota\<close>). Only the
  low nine bits are ever set, so the width of Go's \<^verbatim>\<open>int\<close> does not matter and the
  mask is an \<open>int\<close> with the bitwise operations of HOL.
\<close>

type_synonym Callback = int

definition CallbackDirectoryExists :: Callback where "CallbackDirectoryExists = push_bit 0 1"
definition CallbackFileExists :: Callback where "CallbackFileExists = push_bit 1 1"
definition CallbackGetAccessibleEntries :: Callback where "CallbackGetAccessibleEntries = push_bit 2 1"
definition CallbackReadFile :: Callback where "CallbackReadFile = push_bit 3 1"
definition CallbackRealpath :: Callback where "CallbackRealpath = push_bit 4 1"
definition CallbackResolveModuleName :: Callback where "CallbackResolveModuleName = push_bit 5 1"
definition CallbackResolveTypeReferenceDirective :: Callback where
  "CallbackResolveTypeReferenceDirective = push_bit 6 1"
definition CallbackGetPackageJsonScopeIfApplicable :: Callback where
  "CallbackGetPackageJsonScopeIfApplicable = push_bit 7 1"
definition CallbackGetPackageScopeForPath :: Callback where
  "CallbackGetPackageScopeForPath = push_bit 8 1"

subsection \<open>Errors and panics\<close>

text \<open>
  Every error the server builds is a constructor that keeps the arguments of the
  \<^verbatim>\<open>fmt.Errorf\<close> call instead of the formatted text. \<open>ErrInvalidRequest\<close> stands for an
  error wrapping the sentinel \<^verbatim>\<open>ErrInvalidRequest\<close>, \<open>ErrClientError\<close> for one wrapping
  \<^verbatim>\<open>ErrClientError\<close>. \<open>JsonError\<close> and \<open>ApiError\<close> are errors of the JSON library and
  of the request handlers behind \<^verbatim>\<open>s.api\<close>, which are not part of this file.
  A panic carries the value given to \<^verbatim>\<open>panic\<close>; \<open>NilDereference\<close> is the run-time
  panic of reading a field through a nil pointer.
\<close>

datatype invalid_request =
    ExpectedFixedArray3 byte
  | ExpectedU8 byte
  | UnknownMessageType MessageType
  | ExpectedMethod bytes bytes
  | ExpectedBinLength byte
  | ExpectedBytes nat nat
  | ExpectedRequest MessageType
  | ExpectedCallReply MessageType

datatype error =
    EOF
  | ErrUnexpectedEOF
  | ErrWriter
  | ErrInvalidRequest invalid_request
  | ErrInvalidRequestWrap error
  | ErrClientError bytes
  | UnknownCallback bytes
  | JsonError nat
  | ApiError bytes
  | PanicHandlingRequest panic_value bytes
and panic_value =
    PanicError error
  | PanicText bytes
  | NilDereference

datatype 'a outcome = Returned 'a | Panicked panic_value

subsection \<open>The local filesystem \<^verbatim>\<open>s.fs\<close>\<close>

text \<open>
  \<^verbatim>\<open>vfs.FS\<close> is an interface; the server only calls it. Its answers are functions of
  the path, and every call the server makes to it is appended to \<open>fsLog\<close>, so that a
  theorem can say that the local filesystem was not consulted.
\<close>

record Entries =
  Files :: "bytes list"
  Directories :: "bytes list"

record FS =
  fsDirectoryExists :: "bytes \<Rightarrow> bool"
  fsFileExists :: "bytes \<Rightarrow> bool"
  fsGetAccessibleEntries :: "bytes \<Rightarrow> Entries"
  fsReadFile :: "bytes \<Rightarrow> bytes \<times> bool"
  fsRealpath :: "bytes \<Rightarrow> bytes"

datatype fs_call =
    CallDirectoryExists bytes
  | CallFileExists bytes
  | CallGetAccessibleEntries bytes
  | CallReadFile bytes
  | CallRealpath bytes

subsection \<open>The server state\<close>

text \<open>
  \<^verbatim>\<open>s.r\<close> is a \<^verbatim>\<open>bufio.Reader\<close> over the input: \<open>r_in\<close> holds the bytes not yet read,
  and reading past them is \<^verbatim>\<open>io.EOF\<close>. \<^verbatim>\<open>s.w\<close> is a \<^verbatim>\<open>bufio.Writer\<close> over the output:
  \<open>w_buf\<close> is its buffer, \<open>w_sent\<close> the bytes that reached the output, \<open>w_err\<close> its
  sticky error and \<open>w_broken\<close> says that the underlying writer fails. The buffer is
  not bounded here; with a working output the bytes that reach it are the same.
\<close>

record Server =
  r_in :: bytes
  w_buf :: bytes
  w_sent :: bytes
  w_err :: bool
  w_broken :: bool
  fs :: FS
  fsLog :: "fs_call list"
  enabledCallbacks :: Callback
  requestId :: int

section \<open>Envelope codec\<close>

subsection \<open>Library functions used by the codec\<close>

text \<open>\<^verbatim>\<open>bufio.Reader.ReadByte\<close>.\<close>

definition ReadByte :: "Server \<Rightarrow> (error + byte) \<times> Server" where
  "ReadByte s = (case r_in s of
       [] \<Rightarrow> (Inl EOF, s)
     | b # rest \<Rightarrow> (Inr b, s\<lparr>r_in := rest\<rparr>))"

text \<open>
  \<^verbatim>\<open>io.ReadFull(s.r, buf)\<close> with \<^verbatim>\<open>len(buf) = n\<close>: no byte wanted succeeds even at
  the end of the input; no byte available is \<^verbatim>\<open>io.EOF\<close>; fewer than \<open>n\<close> is
  \<^verbatim>\<open>io.ErrUnexpectedEOF\<close>, after consuming what there was.
\<close>

definition ReadFull :: "nat \<Rightarrow> Server \<Rightarrow> (error + bytes) \<times> Server" where
  "ReadFull n s =
     (if n = 0 then (Inr [], s)
      else if r_in s = [] then (Inl EOF, s)
      else if length (r_in s) < n then (Inl ErrUnexpectedEOF, s\<lparr>r_in := []\<rparr>)
      else (Inr (take n (r_in s)), s\<lparr>r_in := drop n (r_in s)\<rparr>))"

text \<open>\<^verbatim>\<open>binary.BigEndian\<close>: \<^verbatim>\<open>Uint16\<close>, \<^verbatim>\<open>Uint32\<close>, \<^verbatim>\<open>PutUint16\<close>, \<^verbatim>\<open>PutUint32\<close>.\<close>

definition Uint16 :: "bytes \<Rightarrow> 16 word" where
  "Uint16 b = ucast (b ! 1) OR push_bit 8 (ucast (b ! 0))"

definition Uint32 :: "bytes \<Rightarrow> 32 word" where
  "Uint32 b = ucast (b ! 3) OR push_bit 8 (ucast (b ! 2))
     OR push_bit 16 (ucast (b ! 1)) OR push_bit 24 (ucast (b ! 0))"

definition PutUint16 :: "16 word \<Rightarrow> bytes" where
  "PutUint16 v = [ucast (drop_bit 8 v), ucast v]"

definition PutUint32 :: "32 word \<Rightarrow> bytes" where
  "PutUint32 v = [ucast (drop_bit 24 v), ucast (drop_bit 16 v), ucast (drop_bit 8 v), ucast v]"

text \<open>\<^verbatim>\<open>bufio.Writer\<close>: \<^verbatim>\<open>WriteByte\<close>, \<^verbatim>\<open>Write\<close> and \<^verbatim>\<open>Flush\<close>.\<close>

definition Write :: "bytes \<Rightarrow> Server \<Rightarrow> (error + unit) \<times> Server" where
  "Write p s = (if w_err s then (Inl ErrWriter, s) else (Inr (), s\<lparr>w_buf := w_buf s @ p\<rparr>))"

definition WriteByte :: "byte \<Rightarrow> Server \<Rightarrow> (error + unit) \<times> Server" where
  "WriteByte c s = Write [c] s"

definition Flush :: "Server \<Rightarrow> (error + unit) \<times> Server" where
  "Flush s =
     (if w_err s then (Inl ErrWriter, s)
      else if w_buf s = [] then (Inr (), s)
      else if w_broken s then (Inl ErrWriter, s\<lparr>w_err := True\<rparr>)
      else (Inr (), s\<lparr>w_sent := w_sent s @ w_buf s, w_buf := []\<rparr>))"

subsection \<open>\<^verbatim>\<open>readBin\<close>, \<^verbatim>\<open>readRequest\<close>\<close>

definition readBin :: "Server \<Rightarrow> (error + bytes) \<times> Server" where
  "readBin s =
     (case ReadByte s of
        (Inl e, s1) \<Rightarrow> (Inl e, s1)
      | (Inr t, s1) \<Rightarrow>
          (case (if t = MessagePackTypeBin8 then
                   (case ReadFull 1 s1 of
                      (Inl e, s2) \<Rightarrow> (Inl e, s2)
                    | (Inr b, s2) \<Rightarrow> (Inr (unat (b ! 0)), s2))
                 else if t = MessagePackTypeBin16 then
                   (case ReadFull 2 s1 of
                      (Inl e, s2) \<Rightarrow> (Inl e, s2)
                    | (Inr b, s2) \<Rightarrow> (Inr (unat (Uint16 b)), s2))
                 else if t = MessagePackTypeBin32 then
                   (case ReadFull 4 s1 of
                      (Inl e, s2) \<Rightarrow> (Inl e, s2)
                    | (Inr b, s2) \<Rightarrow> (Inr (unat (Uint32 b)), s2))
                 else (Inl (ErrInvalidRequest (ExpectedBinLength t)), s1)) of
             (Inl e, s2) \<Rightarrow> (Inl e, s2)
           | (Inr n, s2) \<Rightarrow>
               (case ReadFull n s2 of
                  (Inl e, s3) \<Rightarrow> (Inl e, s3)
                | (Inr payload, s3) \<Rightarrow>
                    (if length payload \<noteq> n
                     then (Inl (ErrInvalidRequest (ExpectedBytes n (length payload))), s3)
                     else (Inr payload, s3)))))"

definition readRequest ::
  "bytes \<Rightarrow> Server \<Rightarrow> (error + MessageType \<times> bytes \<times> bytes) \<times> Server" where
  "readRequest expectedMethod s =
     (case ReadByte s of
        (Inl e, s1) \<Rightarrow> (Inl e, s1)
      | (Inr t, s1) \<Rightarrow>
          if t \<noteq> MessagePackTypeFixedArray3
          then (Inl (ErrInvalidRequest (ExpectedFixedArray3 t)), s1)
          else
            (case ReadByte s1 of
               (Inl e, s2) \<Rightarrow> (Inl e, s2)
             | (Inr t, s2) \<Rightarrow>
                 if t \<noteq> MessagePackTypeU8
                 then (Inl (ErrInvalidRequest (ExpectedU8 t)), s2)
                 else
                   (case ReadByte s2 of
                      (Inl e, s3) \<Rightarrow> (Inl e, s3)
                    | (Inr messageType, s3) \<Rightarrow>
                        if \<not> IsValid messageType
                        then (Inl (ErrInvalidRequest (UnknownMessageType messageType)), s3)
                        else
                          (case readBin s3 of
                             (Inl e, s4) \<Rightarrow> (Inl e, s4)
                           | (Inr method, s4) \<Rightarrow>
                               if expectedMethod \<noteq> [] \<and> method \<noteq> expectedMethod
                               then (Inl (ErrInvalidRequest
                                            (ExpectedMethod expectedMethod method)), s4)
                               else
                                 (case readBin s4 of
                                    (Inl e, s5) \<Rightarrow> (Inl e, s5)
                                  | (Inr payload, s5) \<Rightarrow>
                                      (Inr (messageType, method, payload), s5))))))"

subsection \<open>\<^verbatim>\<open>writeBin\<close>, \<^verbatim>\<open>writeMessage\<close>, \<^verbatim>\<open>sendResponse\<close>\<close>

text \<open>
  A run of writes that stops at the first error, as the chain of
  \<^verbatim>\<open>if err := ...; err != nil { return err }\<close> does.
\<close>

fun writeAll :: "(Server \<Rightarrow> (error + unit) \<times> Server) list \<Rightarrow> Server \<Rightarrow> (error + unit) \<times> Server" where
  "writeAll [] s = (Inr (), s)"
| "writeAll (f # ws) s =
     (case f s of
        (Inl e, s1) \<Rightarrow> (Inl e, s1)
      | (Inr u, s1) \<Rightarrow> writeAll ws s1)"

definition writeBin :: "bytes \<Rightarrow> Server \<Rightarrow> (error + unit) \<times> Server" where
  "writeBin payload s =
     (let len = length payload in
      if len < 256 then
        writeAll [WriteByte MessagePackTypeBin8,
                  WriteByte (of_nat len),
                  Write payload] s
      else if len < 2 ^ 16 then
        writeAll [WriteByte MessagePackTypeBin16,
                  Write (PutUint16 (of_nat len)),
                  Write payload] s
      else
        writeAll [WriteByte MessagePackTypeBin32,
                  Write (PutUint32 (of_nat len)),
                  Write payload] s)"

definition writeMessage :: "MessageType \<Rightarrow> bytes \<Rightarrow> bytes \<Rightarrow> Server \<Rightarrow> (error + unit) \<times> Server" where
  "writeMessage messageType method payload s =
     writeAll [WriteByte MessagePackTypeFixedArray3,
               WriteByte MessagePackTypeU8,
               WriteByte messageType,
               writeBin method,
               writeBin payload,
               Flush] s"

definition sendResponse :: "bytes \<Rightarrow> bytes \<Rightarrow> Server \<Rightarrow> (error + unit) \<times> Server" where
  "sendResponse method result s = writeMessage MessageTypeResponse method result s"

section \<open>What the server takes from outside this file\<close>

text \<open>
  \<^verbatim>\<open>ConfigureParams\<close> is declared elsewhere in the package; \<^verbatim>\<open>handleConfigure\<close> reads
  its fields \<^verbatim>\<open>Callbacks\<close> and \<^verbatim>\<open>LogFile\<close>.
\<close>

record ConfigureParams =
  Callbacks :: "bytes list"
  LogFile :: bytes

text \<open>
  The JSON library, \<^verbatim>\<open>fmt\<close>, \<^verbatim>\<open>debug.Stack\<close> and the request handlers behind
  \<^verbatim>\<open>s.api\<close> are parameters of the model. An unmarshal into a pointer
  (\<^verbatim>\<open>*ConfigureParams\<close>, \<^verbatim>\<open>*struct{...}\<close>) gives \<open>None\<close> for the nil pointer.
  \<open>errText\<close> is \<^verbatim>\<open>err.Error()\<close> for the errors not built by \<^verbatim>\<open>Run\<close>,
  \<open>fmtValue\<close> the \<^verbatim>\<open>%v\<close> rendering of a recovered panic value.
  \<open>apiHandleRequest\<close> gets the request id, the method and the payload, and runs on
  the server state, since the handlers reach the filesystem adapter of the server.
\<close>

record Env =
  jsonMarshalString :: "bytes \<Rightarrow> error + bytes"
  jsonUnmarshalString :: "bytes \<Rightarrow> error + bytes"
  jsonUnmarshalEntries :: "bytes \<Rightarrow> error + Entries option"
  jsonUnmarshalConfigureParams :: "bytes \<Rightarrow> error + ConfigureParams option"
  errText :: "error \<Rightarrow> bytes"
  fmtValue :: "panic_value \<Rightarrow> bytes"
  debugStack :: bytes
  apiHandleRequest :: "int \<Rightarrow> bytes \<Rightarrow> bytes \<Rightarrow> Server \<Rightarrow> (bytes \<times> error option) outcome \<times> Server"

text \<open>
  \<^verbatim>\<open>err.Error()\<close>: the error built in the deferred function of \<^verbatim>\<open>Run\<close> is
  \<^verbatim>\<open>fmt.Errorf("panic handling request: %v\n%s", r, string(stack))\<close>.
\<close>

definition Error :: "Env \<Rightarrow> error \<Rightarrow> bytes" where
  "Error E err =
     (case err of
        PanicHandlingRequest r stack \<Rightarrow>
          str ''panic handling request: '' @ fmtValue E r @ [0x0A] @ stack
      | _ \<Rightarrow> errText E err)"

definition sendError :: "Env \<Rightarrow> bytes \<Rightarrow> error \<Rightarrow> Server \<Rightarrow> (error + unit) \<times> Server" where
  "sendError E method err s = writeMessage MessageTypeError method (Error E err) s"

section \<open>Capability registry\<close>

definition enableCallback :: "bytes \<Rightarrow> Server \<Rightarrow> error option \<times> Server" where
  "enableCallback callback s =
     (if callback = str ''directoryExists'' then (None, s\<lparr>enabledCallbacks := enabledCallbacks s OR CallbackDirectoryExists\<rparr>)
      else if callback = str ''fileExists'' then (None, s\<lparr>enabledCallbacks := enabledCallbacks s OR CallbackFileExists\<rparr>)
      else if callback = str ''getAccessibleEntries'' then (None, s\<lparr>enabledCallbacks := enabledCallbacks s OR CallbackGetAccessibleEntries\<rparr>)
      else if callback = str ''readFile'' then (None, s\<lparr>enabledCallbacks := enabledCallbacks s OR CallbackReadFile\<rparr>)
      else if callback = str ''realpath'' then (None, s\<lparr>enabledCallbacks := enabledCallbacks s OR CallbackRealpath\<rparr>)
      else if callback = str ''resolveModuleName'' then (None, s\<lparr>enabledCallbacks := enabledCallbacks s OR CallbackResolveModuleName\<rparr>)
      else if callback = str ''resolveTypeReferenceDirective''
        then (None, s\<lparr>enabledCallbacks := enabledCallbacks s OR CallbackResolveTypeReferenceDirective\<rparr>)
      else if callback = str ''getPackageJsonScopeIfApplicable''
        then (None, s\<lparr>enabledCallbacks := enabledCallbacks s OR CallbackGetPackageJsonScopeIfApplicable\<rparr>)
      else if callback = str ''getPackageScopeForPath''
        then (None, s\<lparr>enabledCallbacks := enabledCallbacks s OR CallbackGetPackageScopeForPath\<rparr>)
      else (Some (UnknownCallback callback), s))"

definition CallbackEnabled :: "Server \<Rightarrow> Callback \<Rightarrow> bool" where
  "CallbackEnabled s callback \<longleftrightarrow> enabledCallbacks s AND callback \<noteq> 0"

text \<open>The loop \<^verbatim>\<open>for _, callback := range params.Callbacks\<close> of \<^verbatim>\<open>handleConfigure\<close>.\<close>

fun enableCallbacks :: "bytes list \<Rightarrow> Server \<Rightarrow> error option \<times> Server" where
  "enableCallbacks [] s = (None, s)"
| "enableCallbacks (callback # cs) s =
     (case enableCallback callback s of
        (Some err, s1) \<Rightarrow> (Some err, s1)
      | (None, s1) \<Rightarrow> enableCallbacks cs s1)"

text \<open>
  \<^verbatim>\<open>params\<close> is a \<^verbatim>\<open>*ConfigureParams\<close>: when the payload unmarshals to the nil pointer,
  \<^verbatim>\<open>params.Callbacks\<close> panics. The \<^verbatim>\<open>LogFile\<close> branches are empty.
\<close>

definition handleConfigure :: "Env \<Rightarrow> bytes \<Rightarrow> Server \<Rightarrow> error option outcome \<times> Server" where
  "handleConfigure E payload s =
     (case jsonUnmarshalConfigureParams E payload of
        Inl err \<Rightarrow> (Returned (Some (ErrInvalidRequestWrap err)), s)
      | Inr None \<Rightarrow> (Panicked NilDereference, s)
      | Inr (Some params) \<Rightarrow>
          (case enableCallbacks (Callbacks params) s of
             (Some err, s1) \<Rightarrow> (Returned (Some err), s1)
           | (None, s1) \<Rightarrow> (Returned None, s1)))"

section \<open>Call client\<close>

text \<open>
  \<^verbatim>\<open>call(method, payload)\<close>; \<open>marshal\<close> is \<^verbatim>\<open>json.Marshal\<close> at the type of the
  payload. The model is sequential, so the mutex does nothing.
\<close>

definition call ::
  "('p \<Rightarrow> error + bytes) \<Rightarrow> bytes \<Rightarrow> 'p \<Rightarrow> Server \<Rightarrow> (error + bytes) \<times> Server" where
  "call marshal method payload s =
     (case marshal payload of
        Inl err \<Rightarrow> (Inl err, s)
      | Inr jsonPayload \<Rightarrow>
          (case writeMessage MessageTypeCall method jsonPayload s of
             (Inl err, s1) \<Rightarrow> (Inl err, s1)
           | (Inr u, s1) \<Rightarrow>
               (case readRequest method s1 of
                  (Inl err, s2) \<Rightarrow> (Inl err, s2)
                | (Inr (messageType, m, responsePayload), s2) \<Rightarrow>
                    if messageType \<noteq> MessageTypeCallResponse \<and> messageType \<noteq> MessageTypeCallError
                    then (Inl (ErrInvalidRequest (ExpectedCallReply messageType)), s2)
                    else if messageType = MessageTypeCallError
                    then (Inl (ErrClientError responsePayload), s2)
                    else (Inr responsePayload, s2))))"

section \<open>Filesystem adapter\<close>

text \<open>The calls into \<^verbatim>\<open>s.fs\<close>, each one logged.\<close>

definition localDirectoryExists :: "bytes \<Rightarrow> Server \<Rightarrow> bool outcome \<times> Server" where
  "localDirectoryExists path s =
     (Returned (fsDirectoryExists (fs s) path), s\<lparr>fsLog := fsLog s @ [CallDirectoryExists path]\<rparr>)"

definition localFileExists :: "bytes \<Rightarrow> Server \<Rightarrow> bool outcome \<times> Server" where
  "localFileExists path s =
     (Returned (fsFileExists (fs s) path), s\<lparr>fsLog := fsLog s @ [CallFileExists path]\<rparr>)"

definition localGetAccessibleEntries :: "bytes \<Rightarrow> Server \<Rightarrow> Entries outcome \<times> Server" where
  "localGetAccessibleEntries path s =
     (Returned (fsGetAccessibleEntries (fs s) path),
      s\<lparr>fsLog := fsLog s @ [CallGetAccessibleEntries path]\<rparr>)"

definition localReadFile :: "bytes \<Rightarrow> Server \<Rightarrow> (bytes \<times> bool) outcome \<times> Server" where
  "localReadFile path s =
     (Returned (fsReadFile (fs s) path), s\<lparr>fsLog := fsLog s @ [CallReadFile path]\<rparr>)"

definition localRealpath :: "bytes \<Rightarrow> Server \<Rightarrow> bytes outcome \<times> Server" where
  "localRealpath path s =
     (Returned (fsRealpath (fs s) path), s\<lparr>fsLog := fsLog s @ [CallRealpath path]\<rparr>)"

text \<open>\<^verbatim>\<open>strings.HasPrefix\<close>.\<close>

definition HasPrefix :: "bytes \<Rightarrow> bytes \<Rightarrow> bool" where
  "HasPrefix t p \<longleftrightarrow> length p \<le> length t \<and> take (length p) t = p"

definition DirectoryExists :: "Env \<Rightarrow> bytes \<Rightarrow> Server \<Rightarrow> bool outcome \<times> Server" where
  "DirectoryExists E path s =
     (if enabledCallbacks s AND CallbackDirectoryExists \<noteq> 0 then
        (case call (jsonMarshalString E) (str ''directoryExists'') path s of
           (Inl err, s1) \<Rightarrow> (Panicked (PanicError err), s1)
         | (Inr result, s1) \<Rightarrow>
             if length result > 0 then (Returned (result = str ''true''), s1)
             else localDirectoryExists path s1)
      else localDirectoryExists path s)"

definition FileExists :: "Env \<Rightarrow> bytes \<Rightarrow> Server \<Rightarrow> bool outcome \<times> Server" where
  "FileExists E path s =
     (if enabledCallbacks s AND CallbackFileExists \<noteq> 0 then
        (case call (jsonMarshalString E) (str ''fileExists'') path s of
           (Inl err, s1) \<Rightarrow> (Panicked (PanicError err), s1)
         | (Inr result, s1) \<Rightarrow>
             if length result > 0 then (Returned (result = str ''true''), s1)
             else localFileExists path s1)
      else localFileExists path s)"

definition GetAccessibleEntries :: "Env \<Rightarrow> bytes \<Rightarrow> Server \<Rightarrow> Entries outcome \<times> Server" where
  "GetAccessibleEntries E path s =
     (if enabledCallbacks s AND CallbackGetAccessibleEntries \<noteq> 0 then
        (case call (jsonMarshalString E) (str ''getAccessibleEntries'') path s of
           (Inl err, s1) \<Rightarrow> (Panicked (PanicError err), s1)
         | (Inr result, s1) \<Rightarrow>
             if length result > 0 then
               (case jsonUnmarshalEntries E result of
                  Inl err \<Rightarrow> (Panicked (PanicError err), s1)
                | Inr (Some rawEntries) \<Rightarrow>
                    (Returned \<lparr>Files = Files rawEntries,
                               Directories = Directories rawEntries\<rparr>, s1)
                | Inr None \<Rightarrow> localGetAccessibleEntries path s1)
             else localGetAccessibleEntries path s1)
      else localGetAccessibleEntries path s)"

definition ReadFile :: "Env \<Rightarrow> bytes \<Rightarrow> Server \<Rightarrow> (bytes \<times> bool) outcome \<times> Server" where
  "ReadFile E path s =
     (if enabledCallbacks s AND CallbackReadFile \<noteq> 0 \<and> \<not> HasPrefix path (str ''bundled://'') then
        (case call (jsonMarshalString E) (str ''readFile'') path s of
           (Inl err, s1) \<Rightarrow> (Panicked (PanicError err), s1)
         | (Inr data, s1) \<Rightarrow>
             if data = str ''null'' then (Returned ([], False), s1)
             else if length data > 0 then
               (case jsonUnmarshalString E data of
                  Inl err \<Rightarrow> (Panicked (PanicError err), s1)
                | Inr result \<Rightarrow> (Returned (result, True), s1))
             else localReadFile path s1)
      else localReadFile path s)"

definition Realpath :: "Env \<Rightarrow> bytes \<Rightarrow> Server \<Rightarrow> bytes outcome \<times> Server" where
  "Realpath E path s =
     (if enabledCallbacks s AND CallbackRealpath \<noteq> 0 then
        (case call (jsonMarshalString E) (str ''realpath'') path s of
           (Inl err, s1) \<Rightarrow> (Panicked (PanicError err), s1)
         | (Inr data, s1) \<Rightarrow>
             if length data > 0 then
               (case jsonUnmarshalString E data of
                  Inl err \<Rightarrow> (Panicked (PanicError err), s1)
                | Inr result \<Rightarrow> (Returned result, s1))
             else localRealpath path s1)
      else localRealpath path s)"

section \<open>Dispatcher\<close>

definition handleRequest ::
  "Env \<Rightarrow> bytes \<Rightarrow> bytes \<Rightarrow> Server \<Rightarrow> (bytes \<times> error option) outcome \<times> Server" where
  "handleRequest E method payload s =
     (let s1 = s\<lparr>requestId := requestId s + 1\<rparr> in
      if method = str ''configure'' then
        (case handleConfigure E payload s1 of
           (Returned err, s2) \<Rightarrow> (Returned ([], err), s2)
         | (Panicked p, s2) \<Rightarrow> (Panicked p, s2))
      else if method = str ''echo'' then (Returned (payload, None), s1)
      else apiHandleRequest E (requestId s1) method payload s1)"

text \<open>
  \<^verbatim>\<open>Run\<close> registers one deferred function per request read, inside the loop; Go runs
  deferred functions when the surrounding function, \<^verbatim>\<open>Run\<close>, returns or panics, the
  last one registered first. Each is a closure over the \<^verbatim>\<open>method\<close> of its
  iteration, so the list of pending deferred functions is the list of these methods.
  \<open>runDeferred\<close> runs them: \<^verbatim>\<open>recover()\<close> returns the panic in flight and stops it;
  a deferred function that fails to send the error panics anew.
\<close>

fun runDeferred :: "Env \<Rightarrow> bytes list \<Rightarrow> panic_value option \<Rightarrow> Server \<Rightarrow> panic_value option \<times> Server" where
  "runDeferred E [] p s = (p, s)"
| "runDeferred E (method # ds) p s =
     (case p of
        None \<Rightarrow> runDeferred E ds None s
      | Some r \<Rightarrow>
          (case sendError E method (PanicHandlingRequest r (debugStack E)) s of
             (Inl fatalErr, s1) \<Rightarrow>
               runDeferred E ds (Some (PanicText (str ''fatal error sending panic response''))) s1
           | (Inr u, s1) \<Rightarrow> runDeferred E ds None s1))"

text \<open>
  Leaving \<^verbatim>\<open>Run\<close>: by \<^verbatim>\<open>return err\<close> (no panic in flight, the deferred functions find
  nothing to recover), or by a panic. \<^verbatim>\<open>Run\<close> has an unnamed result, so when a
  deferred function recovers the panic, \<^verbatim>\<open>Run\<close> returns the zero value \<^verbatim>\<open>nil\<close>.
\<close>

definition leaveReturn :: "Env \<Rightarrow> bytes list \<Rightarrow> error option \<Rightarrow> Server \<Rightarrow> error option outcome \<times> Server" where
  "leaveReturn E ds err s =
     (case runDeferred E ds None s of
        (None, s1) \<Rightarrow> (Returned err, s1)
      | (Some p, s1) \<Rightarrow> (Panicked p, s1))"

definition leavePanic :: "Env \<Rightarrow> bytes list \<Rightarrow> panic_value \<Rightarrow> Server \<Rightarrow> error option outcome \<times> Server" where
  "leavePanic E ds r s =
     (case runDeferred E ds (Some r) s of
        (None, s1) \<Rightarrow> (Returned None, s1)
      | (Some p, s1) \<Rightarrow> (Panicked p, s1))"

text \<open>
  The loop of \<^verbatim>\<open>Run\<close>. The handlers are arbitrary, so the loop is bounded by fuel:
  \<open>None\<close> says that the fuel ran out before \<^verbatim>\<open>Run\<close> returned.
\<close>

fun RunLoop :: "nat \<Rightarrow> Env \<Rightarrow> bytes list \<Rightarrow> Server \<Rightarrow> (error option outcome \<times> Server) option" where
  "RunLoop 0 E ds s = None"
| "RunLoop (Suc fuel) E ds s =
     (case readRequest [] s of
        (Inl err, s1) \<Rightarrow> Some (leaveReturn E ds (Some err) s1)
      | (Inr (messageType, method, payload), s1) \<Rightarrow>
          if messageType = MessageTypeRequest then
            (case handleRequest E method payload s1 of
               (Panicked r, s2) \<Rightarrow> Some (leavePanic E (method # ds) r s2)
             | (Returned (result, Some err), s2) \<Rightarrow>
                 (case sendError E method err s2 of
                    (Inl err', s3) \<Rightarrow> Some (leaveReturn E (method # ds) (Some err') s3)
                  | (Inr u, s3) \<Rightarrow> RunLoop fuel E (method # ds) s3)
             | (Returned (result, None), s2) \<Rightarrow>
                 (case sendResponse method result s2 of
                    (Inl err', s3) \<Rightarrow> Some (leaveReturn E (method # ds) (Some err') s3)
                  | (Inr u, s3) \<Rightarrow> RunLoop fuel E (method # ds) s3))
          else Some (leaveReturn E ds (Some (ErrInvalidRequest (ExpectedRequest messageType))) s1))"

definition Run :: "nat \<Rightarrow> Env \<Rightarrow> Server \<Rightarrow> (error option outcome \<times> Server) option" where
  "Run fuel E s = RunLoop fuel E [] s"

section \<open>Diagnostics of the language service (package \<^verbatim>\<open>ls\<close>)\<close>

text \<open>
  An \<^verbatim>\<open>*ast.Diagnostic\<close> is an address; the store maps the addresses in use to what the
  accessors of the diagnostic return (\<^verbatim>\<open>File().FileName()\<close>, \<^verbatim>\<open>Loc().Pos()\<close>, ...).
  An address outside the store is the nil pointer. \<^verbatim>\<open>diagnosticReverseMap\<close> is keyed
  by the address, so two diagnostics with equal contents are still two keys.
\<close>

type_synonym ptr = nat

record astDiagnostic =
  astFileName :: bytes
  astPos :: int
  astEnd :: int
  astCode :: "32 word"
  astCategoryName :: bytes
  astMessage :: bytes
  astMessageChain :: "ptr list"
  astRelatedInformation :: "ptr list"

type_synonym DiagnosticId = "32 word"

record Diagnostic =
  Id :: DiagnosticId
  FileName :: bytes
  Pos :: "32 word"
  End :: "32 word"
  Code :: "32 word"
  Category :: bytes
  Message :: bytes
  MessageChain :: "DiagnosticId list"
  RelatedInformation :: "DiagnosticId list"
  ReportsUnnecessary :: bool
  ReportsDeprecated :: bool
  SkippedOnNoEmit :: bool

record diagnosticMaps =
  diagnosticMapById :: "DiagnosticId \<rightharpoonup> Diagnostic"
  diagnosticReverseMap :: "ptr \<rightharpoonup> DiagnosticId"

text \<open>
  \<^verbatim>\<open>addDiagnostic\<close> recurses through the message chain and the related information
  of a diagnostic, and the two \<^verbatim>\<open>for\<close> loops are \<open>addDiagnostics\<close>, which appends the
  ids to \<open>acc\<close>. The store is arbitrary, so the depth of the recursion is bounded by
  fuel, \<open>None\<close> when it runs out; the look-up in the reverse map comes first, as in
  the source, and needs no fuel. \<^verbatim>\<open>len(d.diagnosticMapById)\<close> is the number of keys, and
  the conversion to \<^verbatim>\<open>DiagnosticId\<close> (a \<^verbatim>\<open>uint32\<close>) truncates.
\<close>

fun addDiagnostic ::
    "nat \<Rightarrow> (ptr \<rightharpoonup> astDiagnostic) \<Rightarrow> ptr \<Rightarrow> diagnosticMaps
       \<Rightarrow> (DiagnosticId outcome \<times> diagnosticMaps) option"
  and addDiagnostics ::
    "nat \<Rightarrow> (ptr \<rightharpoonup> astDiagnostic) \<Rightarrow> ptr list \<Rightarrow> DiagnosticId list \<Rightarrow> diagnosticMaps
       \<Rightarrow> (DiagnosticId list outcome \<times> diagnosticMaps) option" where
  "addDiagnostic fuel heap diagnostic d =
     (case diagnosticReverseMap d diagnostic of
        Some i \<Rightarrow> Some (Returned i, d)
      | None \<Rightarrow>
          (case fuel of
             0 \<Rightarrow> None
           | Suc fuel' \<Rightarrow>
               (case heap diagnostic of
                  None \<Rightarrow> Some (Panicked NilDereference, d)
                | Some a \<Rightarrow>
                    (let id = of_nat (card (dom (diagnosticMapById d)) + 1);
                         diag = \<lparr>Id = id,
                                 FileName = astFileName a,
                                 Pos = word_of_int (astPos a),
                                 End = word_of_int (astEnd a),
                                 Code = astCode a,
                                 Category = astCategoryName a,
                                 Message = astMessage a,
                                 MessageChain = [],
                                 RelatedInformation = [],
                                 ReportsUnnecessary = False,
                                 ReportsDeprecated = False,
                                 SkippedOnNoEmit = False\<rparr>;
                         d1 = d\<lparr>diagnosticReverseMap := (diagnosticReverseMap d)(diagnostic \<mapsto> id)\<rparr>
                     in case addDiagnostics fuel' heap (astMessageChain a) [] d1 of
                          None \<Rightarrow> None
                        | Some (Panicked p, d2) \<Rightarrow> Some (Panicked p, d2)
                        | Some (Returned messageChain, d2) \<Rightarrow>
                            (case addDiagnostics fuel' heap (astRelatedInformation a) [] d2 of
                               None \<Rightarrow> None
                             | Some (Panicked p, d3) \<Rightarrow> Some (Panicked p, d3)
                             | Some (Returned relatedInformation, d3) \<Rightarrow>
                                 Some (Returned id,
                                   d3\<lparr>diagnosticMapById := (diagnosticMapById d3)
                                        (id \<mapsto> diag\<lparr>MessageChain := messageChain,
                                                      RelatedInformation := relatedInformation\<rparr>)\<rparr>))))))"
| "addDiagnostics fuel heap [] acc d = Some (Returned acc, d)"
| "addDiagnostics fuel heap (x # xs) acc d =
     (case addDiagnostic fuel heap x d of
        None \<Rightarrow> None
      | Some (Panicked p, d1) \<Rightarrow> Some (Panicked p, d1)
      | Some (Returned i, d1) \<Rightarrow> addDiagnostics fuel heap xs (acc @ [i]) d1)"

subsection \<open>An example store\<close>

definition exDiag :: astDiagnostic where
  "exDiag = \<lparr>astFileName = str ''a.ts'', astPos = 0, astEnd = 1, astCode = 2304,
              astCategoryName = str ''error'', astMessage = str ''m'',
              astMessageChain = [], astRelatedInformation = []\<rparr>"

definition exMaps0 :: diagnosticMaps where
  "exMaps0 = \<lparr>diagnosticMapById = Map.empty, diagnosticReverseMap = Map.empty\<rparr>"

definition exMaps1 :: diagnosticMaps where
  "exMaps1 = \<lparr>diagnosticMapById =
                 [1 \<mapsto> \<lparr>Id = 1, FileName = str ''a.ts'', Pos = 0, End = 1, Code = 2304,
                         Category = str ''error'', Message = str ''m'',
                         MessageChain = [], RelatedInformation = [],
                         ReportsUnnecessary = False, ReportsDeprecated = False,
                         SkippedOnNoEmit = False\<rparr>],
               diagnosticReverseMap = [7 \<mapsto> 1]\<rparr>"

definition binPrefix :: "nat \<Rightarrow> bytes" where
  "binPrefix n =
     (if n < 256 then [MessagePackTypeBin8, of_nat n]
      else if n < 2 ^ 16 then MessagePackTypeBin16 # PutUint16 (of_nat n)
      else MessagePackTypeBin32 # PutUint32 (of_nat n))"

definition envelopeBytes :: "MessageType \<Rightarrow> bytes \<Rightarrow> bytes \<Rightarrow> bytes" where
  "envelopeBytes k m p =
     [MessagePackTypeFixedArray3, MessagePackTypeU8, k]
       @ binPrefix (length m) @ m @ binPrefix (length p) @ p"

text \<open>The tag \<^verbatim>\<open>writeBin\<close> writes in front of \<open>n\<close> bytes: the narrowest width that fits.\<close>

definition narrowestTag :: "nat \<Rightarrow> byte" where
  "narrowestTag n =
     (if n < 256 then MessagePackTypeBin8
      else if n < 2 ^ 16 then MessagePackTypeBin16
      else MessagePackTypeBin32)"

text \<open>
  The envelope at the head of the input has, in front of its Method and in front of
  its Payload, the tag that \<^verbatim>\<open>writeBin\<close> would choose for their lengths.
\<close>

definition usesNarrowestWidths :: "Server \<Rightarrow> bool" where
  "usesNarrowestWidths s =
     (case readBin (s\<lparr>r_in := drop 3 (r_in s)\<rparr>) of
        (Inl e, s1) \<Rightarrow> False
      | (Inr m, s1) \<Rightarrow>
          hd (drop 3 (r_in s)) = narrowestTag (length m) \<and>
          (case readBin s1 of
             (Inl e, s2) \<Rightarrow> False
           | (Inr p, s2) \<Rightarrow> hd (r_in s1) = narrowestTag (length p)))"

definition exFS :: FS where
  "exFS = \<lparr>fsDirectoryExists = (\<lambda>path. False),
           fsFileExists = (\<lambda>path. path = str ''/local.ts''),
           fsGetAccessibleEntries = (\<lambda>path. \<lparr>Files = [str ''local.ts''], Directories = []\<rparr>),
           fsReadFile = (\<lambda>path. if path = str ''/local.ts'' then (str ''local'', True) else ([], False)),
           fsRealpath = (\<lambda>path. path)\<rparr>"

definition exServer :: "bytes \<Rightarrow> Callback \<Rightarrow> Server" where
  "exServer input enabled =
     \<lparr>r_in = input, w_buf = [], w_sent = [], w_err = False, w_broken = False,
      fs = exFS, fsLog = [], enabledCallbacks = enabled, requestId = 0\<rparr>"

text \<open>
  \<open>s'\<close> differs from \<open>s\<close> at most in what was read and written: the local filesystem,
  its log, the capability mask and the request id are the same.
\<close>

definition ioOnly :: "Server \<Rightarrow> Server \<Rightarrow> bool" where
  "ioOnly s s' \<longleftrightarrow>
     fs s' = fs s \<and> fsLog s' = fsLog s \<and> enabledCallbacks s' = enabledCallbacks s \<and>
     requestId s' = requestId s \<and> w_broken s' = w_broken s"

text \<open>
  A stand-in for what is outside this file, for the examples. Of the JSON library it
  has what the examples need: a string marshals to itself between double quotes and
  unmarshals back; the JSON value \<^verbatim>\<open>null\<close> unmarshals into a pointer as the nil
  pointer; the configuration payloads of the examples unmarshal to their callback
  lists. Its request handlers panic for the method \<^verbatim>\<open>boom\<close> and return an empty
  result otherwise.
\<close>

definition exEnv :: Env where
  \<open>exEnv =
     \<lparr>jsonMarshalString = (\<lambda>p. Inr ([0x22] @ p @ [0x22])),
      jsonUnmarshalString =
        (\<lambda>d. if 2 \<le> length d \<and> hd d = 0x22 \<and> last d = 0x22 then Inr (butlast (tl d))
             else Inl (JsonError 0)),
      jsonUnmarshalEntries =
        (\<lambda>d. if d = str ''null'' then Inr None
             else if d = str ''{"files":["remote.ts"],"directories":[]}''
               then Inr (Some \<lparr>Files = [str ''remote.ts''], Directories = []\<rparr>)
             else Inl (JsonError 0)),
      jsonUnmarshalConfigureParams =
        (\<lambda>d. if d = str ''null'' then Inr None
             else if d = str ''{"callbacks":["readFile","bogus","fileExists"]}''
               then Inr (Some \<lparr>Callbacks = [str ''readFile'', str ''bogus'', str ''fileExists''],
                                LogFile = []\<rparr>)
             else if d = str ''{"callbacks":["fileExists"]}''
               then Inr (Some \<lparr>Callbacks = [str ''fileExists''], LogFile = []\<rparr>)
             else Inl (JsonError 0)),
      errText = (\<lambda>e. str ''error''),
      fmtValue =
        (\<lambda>r. case r of
               PanicText t \<Rightarrow> t
             | NilDereference \<Rightarrow>
                 str ''runtime error: invalid memory address or nil pointer dereference''
             | PanicError e \<Rightarrow> str ''error''),
      debugStack = str ''stack'',
      apiHandleRequest =
        (\<lambda>i method payload s.
           if method = str ''boom'' then (Panicked (PanicText (str ''boom'')), s)
           else (Returned ([], None), s))\<rparr>\<close>

text \<open>
  The table of \<^verbatim>\<open>enableCallback\<close>: the bit it sets for a name, \<open>None\<close> for a name it
  does not know.
\<close>

definition callbackBit :: "bytes \<Rightarrow> Callback option" where
  "callbackBit callback =
     (if callback = str ''directoryExists'' then Some CallbackDirectoryExists
      else if callback = str ''fileExists'' then Some CallbackFileExists
      else if callback = str ''getAccessibleEntries'' then Some CallbackGetAccessibleEntries
      else if callback = str ''readFile'' then Some CallbackReadFile
      else if callback = str ''realpath'' then Some CallbackRealpath
      else if callback = str ''resolveModuleName'' then Some CallbackResolveModuleName
      else if callback = str ''resolveTypeReferenceDirective''
        then Some CallbackResolveTypeReferenceDirective
      else if callback = str ''getPackageJsonScopeIfApplicable''
        then Some CallbackGetPackageJsonScopeIfApplicable
      else if callback = str ''getPackageScopeForPath''
        then Some CallbackGetPackageScopeForPath
      else None)"

text \<open>The mask of \<open>s'\<close> is the mask of \<open>s\<close> with some bits ORed in (none, with \<open>0\<close>).\<close>

definition maskGrows :: "Server \<Rightarrow> Server \<Rightarrow> bool" where
  "maskGrows s s' \<longleftrightarrow> (\<exists>bits. enabledCallbacks s' = enabledCallbacks s OR bits)"

section \<open>Properties of the envelope codec\<close>

lemma Uint16_PutUint16: "Uint16 (PutUint16 v) = v"
  unfolding Uint16_def PutUint16_def
  by (rule bit_word_eqI) (auto simp: bit_simps)

lemma Uint32_PutUint32: "Uint32 (PutUint32 v) = v"
  unfolding Uint32_def PutUint32_def
  apply (rule bit_word_eqI)
  subgoal for n
    by (cases "n < 8"; cases "n < 16"; cases "n < 24"; simp add: bit_simps not_less; auto)
  done

lemma length_PutUint16 [simp]: "length (PutUint16 v) = 2"
  by (simp add: PutUint16_def)

lemma length_PutUint32 [simp]: "length (PutUint32 v) = 4"
  by (simp add: PutUint32_def)

lemma unat_of_nat8: "n < 256 \<Longrightarrow> unat (of_nat n :: 8 word) = n"
  by (rule of_nat_inverse [OF refl]) simp
lemma unat_of_nat16: "n < 2 ^ 16 \<Longrightarrow> unat (of_nat n :: 16 word) = n"
  by (rule of_nat_inverse [OF refl]) simp
lemma unat_of_nat32: "n < 2 ^ 32 \<Longrightarrow> unat (of_nat n :: 32 word) = n"
  by (rule of_nat_inverse [OF refl]) simp

subsection \<open>Writer\<close>

lemma Write_ok: "\<not> w_err s \<Longrightarrow> Write p s = (Inr (), s\<lparr>w_buf := w_buf s @ p\<rparr>)"
  by (simp add: Write_def)

lemma WriteByte_ok: "\<not> w_err s \<Longrightarrow> WriteByte c s = (Inr (), s\<lparr>w_buf := w_buf s @ [c]\<rparr>)"
  by (simp add: WriteByte_def Write_def)

lemma writeBin_ok:
  "\<not> w_err s \<Longrightarrow> writeBin p s = (Inr (), s\<lparr>w_buf := w_buf s @ binPrefix (length p) @ p\<rparr>)"
  by (simp add: writeBin_def binPrefix_def Let_def WriteByte_ok Write_ok)

lemma writeBin_err: "w_err s \<Longrightarrow> writeBin p s = (Inl ErrWriter, s)"
  by (simp add: writeBin_def Let_def WriteByte_def Write_def)

lemma writeMessage_ok:
  "\<not> w_err s \<Longrightarrow> \<not> w_broken s \<Longrightarrow>
   writeMessage k m p s =
     (Inr (), s\<lparr>w_buf := [], w_sent := w_sent s @ w_buf s @ envelopeBytes k m p\<rparr>)"
  by (simp add: writeMessage_def envelopeBytes_def WriteByte_ok writeBin_ok Flush_def)

lemma writeMessage_broken:
  "\<not> w_err s \<Longrightarrow> w_broken s \<Longrightarrow>
   writeMessage k m p s =
     (Inl ErrWriter, s\<lparr>w_buf := w_buf s @ envelopeBytes k m p, w_err := True\<rparr>)"
  by (simp add: writeMessage_def envelopeBytes_def WriteByte_ok writeBin_ok Flush_def binPrefix_def)

lemma writeMessage_err: "w_err s \<Longrightarrow> writeMessage k m p s = (Inl ErrWriter, s)"
  by (simp add: writeMessage_def WriteByte_def Write_def)

subsection \<open>Reader\<close>

lemma ReadByte_cons: "r_in s = b # rest \<Longrightarrow> ReadByte s = (Inr b, s\<lparr>r_in := rest\<rparr>)"
  by (simp add: ReadByte_def)

lemma ReadFull_append:
  "r_in s = xs @ rest \<Longrightarrow> length xs = n \<Longrightarrow> ReadFull n s = (Inr xs, s\<lparr>r_in := rest\<rparr>)"
  by (cases s) (auto simp: ReadFull_def)

lemma readBin_prefix:
  assumes "r_in s = binPrefix (length p) @ p @ rest" and "length p < 2 ^ 32"
  shows "readBin s = (Inr p, s\<lparr>r_in := rest\<rparr>)"
proof -
  consider "length p < 256" | "\<not> length p < 256" "length p < 2 ^ 16" | "\<not> length p < 2 ^ 16"
    by blast
  then show ?thesis
  proof cases
    case 1
    with assms(1) have r: "r_in s = MessagePackTypeBin8 # [of_nat (length p)] @ p @ rest"
      by (simp add: binPrefix_def)
    show ?thesis
      unfolding readBin_def
      by (simp add: ReadByte_cons [OF r] ReadFull_append [where xs="[of_nat (length p)]"]
            ReadFull_append [where xs=p] unat_of_nat8 [OF 1] 1)
  next
    case 2
    with assms(1) have r: "r_in s = MessagePackTypeBin16 # PutUint16 (of_nat (length p)) @ p @ rest"
      by (simp add: binPrefix_def)
    show ?thesis
      unfolding readBin_def
      by (simp add: ReadByte_cons [OF r] ReadFull_append [where xs="PutUint16 (of_nat (length p))"]
            ReadFull_append [where xs=p] unat_of_nat16 [OF 2(2)] 2 Uint16_PutUint16
            MessagePackTypeBin8_def MessagePackTypeBin16_def)
  next
    case 3
    with assms(1) have r: "r_in s = MessagePackTypeBin32 # PutUint32 (of_nat (length p)) @ p @ rest"
      by (simp add: binPrefix_def)
    show ?thesis
      unfolding readBin_def
      by (simp add: ReadByte_cons [OF r] ReadFull_append [where xs="PutUint32 (of_nat (length p))"]
            ReadFull_append [where xs=p] unat_of_nat32 [OF assms(2)] Uint32_PutUint32
            MessagePackTypeBin8_def MessagePackTypeBin16_def MessagePackTypeBin32_def)
  qed
qed

lemma readRequest_envelope:
  assumes "r_in s = envelopeBytes k m p @ rest" and "IsValid k"
    and "length m < 2 ^ 32" and "length p < 2 ^ 32"
    and "expectedMethod = [] \<or> expectedMethod = m"
  shows "readRequest expectedMethod s = (Inr (k, m, p), s\<lparr>r_in := rest\<rparr>)"
proof -
  let ?r3 = "binPrefix (length m) @ m @ binPrefix (length p) @ p @ rest"
  have r1: "r_in s = MessagePackTypeFixedArray3 # MessagePackTypeU8 # k # ?r3"
    using assms(1) by (simp add: envelopeBytes_def)
  have b1: "ReadByte s = (Inr MessagePackTypeFixedArray3, s\<lparr>r_in := MessagePackTypeU8 # k # ?r3\<rparr>)"
    by (rule ReadByte_cons [OF r1])
  have b2: "ReadByte (s\<lparr>r_in := MessagePackTypeU8 # k # ?r3\<rparr>)
              = (Inr MessagePackTypeU8, s\<lparr>r_in := k # ?r3\<rparr>)"
    by (simp add: ReadByte_def)
  have b3: "ReadByte (s\<lparr>r_in := k # ?r3\<rparr>) = (Inr k, s\<lparr>r_in := ?r3\<rparr>)"
    by (simp add: ReadByte_def)
  have m1: "readBin (s\<lparr>r_in := ?r3\<rparr>) = (Inr m, s\<lparr>r_in := binPrefix (length p) @ p @ rest\<rparr>)"
    using readBin_prefix [of "s\<lparr>r_in := ?r3\<rparr>" m "binPrefix (length p) @ p @ rest"] assms(3)
    by simp
  have p1: "readBin (s\<lparr>r_in := binPrefix (length p) @ p @ rest\<rparr>) = (Inr p, s\<lparr>r_in := rest\<rparr>)"
    using readBin_prefix [of "s\<lparr>r_in := binPrefix (length p) @ p @ rest\<rparr>" p rest] assms(4)
    by simp
  show ?thesis
    unfolding readRequest_def
    using assms(2,5) by (auto simp: b1 b2 b3 m1 p1)
qed


lemma PutUint16_Uint16: "length b = 2 \<Longrightarrow> PutUint16 (Uint16 b) = b"
  unfolding Uint16_def PutUint16_def
  apply (cases b; simp)
  subgoal for x xs
    apply (cases xs; simp)
    apply (intro conjI bit_word_eqI; auto simp: bit_simps dest: bit_imp_le_length)
    done
  done

lemma PutUint32_Uint32: "length b = 4 \<Longrightarrow> PutUint32 (Uint32 b) = b"
  unfolding Uint32_def PutUint32_def
  apply (cases b; simp)
  subgoal for x xs
    apply (cases xs; simp)
    subgoal for y ys
      apply (cases ys; simp)
      subgoal for z zs
        apply (cases zs; simp)
        apply (intro conjI bit_word_eqI; auto simp: bit_simps dest: bit_imp_le_length)
        done
      done
    done
  done

lemma ReadByte_Inr:
  "ReadByte s = (Inr b, s') \<Longrightarrow> \<exists>rest. r_in s = b # rest \<and> s' = s\<lparr>r_in := rest\<rparr>"
  by (auto simp: ReadByte_def split: list.splits)

lemma ReadFull_Inr:
  "ReadFull n s = (Inr xs, s') \<Longrightarrow>
     \<exists>rest. r_in s = xs @ rest \<and> length xs = n \<and> s' = s\<lparr>r_in := rest\<rparr>"
  by (cases s) (auto simp: ReadFull_def split: if_splits)

lemma lenBytes1: "length b = 1 \<Longrightarrow> [of_nat (unat (b ! 0))] = (b :: bytes)"
  by (cases b) auto

lemma lenBytes2: "length b = 2 \<Longrightarrow> PutUint16 (of_nat (unat (Uint16 b))) = b"
  by (simp add: PutUint16_Uint16)

lemma lenBytes4: "length b = 4 \<Longrightarrow> PutUint32 (of_nat (unat (Uint32 b))) = b"
  by (simp add: PutUint32_Uint32)

lemma unat_lt8: "unat (x :: 8 word) < 256"
  using unsigned_less [of x, where 'a=nat] by simp

lemma unat_lt16: "unat (x :: 16 word) < 2 ^ 16"
  using unsigned_less [of x, where 'a=nat] by simp

lemma unat_lt32: "unat (x :: 32 word) < 2 ^ 32"
  using unsigned_less [of x, where 'a=nat] by simp

lemma readBin_Inr:
  assumes "readBin s = (Inr p, s')"
  shows "\<exists>t lenBytes rest. r_in s = t # lenBytes @ p @ rest \<and> s' = s\<lparr>r_in := rest\<rparr> \<and>
           (t = MessagePackTypeBin8 \<and> lenBytes = [of_nat (length p)] \<and> length p < 256 \<or>
            t = MessagePackTypeBin16 \<and> lenBytes = PutUint16 (of_nat (length p)) \<and> length p < 2 ^ 16 \<or>
            t = MessagePackTypeBin32 \<and> lenBytes = PutUint32 (of_nat (length p)) \<and> length p < 2 ^ 32)"
proof -
  from assms obtain t s1 where rb: "ReadByte s = (Inr t, s1)"
    by (auto simp: readBin_def split: prod.splits sum.splits)
  then obtain r1 where r1: "r_in s = t # r1" "s1 = s\<lparr>r_in := r1\<rparr>"
    by (auto dest: ReadByte_Inr)
  consider (b8) "t = MessagePackTypeBin8" | (b16) "t = MessagePackTypeBin16"
    | (b32) "t = MessagePackTypeBin32"
    using assms rb by (auto simp: readBin_def split: prod.splits sum.splits if_splits)
  then show ?thesis
  proof cases
    case b8
    with assms rb obtain b s2 where
      rl: "ReadFull 1 s1 = (Inr b, s2)" and rp: "ReadFull (unat (b ! 0)) s2 = (Inr p, s')"
      by (auto simp: readBin_def split: prod.splits sum.splits if_splits)
    from rl r1 obtain r2 where r2: "r1 = b @ r2" "length b = 1" "s2 = s\<lparr>r_in := r2\<rparr>"
      by (auto dest!: ReadFull_Inr)
    from rp r2 obtain r3 where r3: "r2 = p @ r3" "length p = unat (b ! 0)" "s' = s\<lparr>r_in := r3\<rparr>"
      by (auto dest!: ReadFull_Inr)
    have "[of_nat (length p)] = b" "length p < 256"
      using r3(2) lenBytes1 [OF r2(2)] unat_lt8 [of "b ! 0"] by simp_all
    with b8 r1 r2 r3 show ?thesis by auto
  next
    case b16
    with assms rb obtain b s2 where
      rl: "ReadFull 2 s1 = (Inr b, s2)" and rp: "ReadFull (unat (Uint16 b)) s2 = (Inr p, s')"
      by (auto simp: readBin_def MessagePackTypeBin8_def MessagePackTypeBin16_def
               split: prod.splits sum.splits if_splits)
    from rl r1 obtain r2 where r2: "r1 = b @ r2" "length b = 2" "s2 = s\<lparr>r_in := r2\<rparr>"
      by (auto dest!: ReadFull_Inr)
    from rp r2 obtain r3 where r3: "r2 = p @ r3" "length p = unat (Uint16 b)" "s' = s\<lparr>r_in := r3\<rparr>"
      by (auto dest!: ReadFull_Inr)
    have "PutUint16 (of_nat (length p)) = b" "length p < 2 ^ 16"
      using r3(2) lenBytes2 [OF r2(2)] unat_lt16 [of "Uint16 b"] by simp_all
    with b16 r1 r2 r3 show ?thesis by auto
  next
    case b32
    with assms rb obtain b s2 where
      rl: "ReadFull 4 s1 = (Inr b, s2)" and rp: "ReadFull (unat (Uint32 b)) s2 = (Inr p, s')"
      by (auto simp: readBin_def MessagePackTypeBin8_def MessagePackTypeBin16_def
               MessagePackTypeBin32_def split: prod.splits sum.splits if_splits)
    from rl r1 obtain r2 where r2: "r1 = b @ r2" "length b = 4" "s2 = s\<lparr>r_in := r2\<rparr>"
      by (auto dest!: ReadFull_Inr)
    from rp r2 obtain r3 where r3: "r2 = p @ r3" "length p = unat (Uint32 b)" "s' = s\<lparr>r_in := r3\<rparr>"
      by (auto dest!: ReadFull_Inr)
    have "PutUint32 (of_nat (length p)) = b" "length p < 2 ^ 32"
      using r3(2) lenBytes4 [OF r2(2)] unat_lt32 [of "Uint32 b"] by simp_all
    with b32 r1 r2 r3 show ?thesis by auto
  qed
qed

text \<open>With the narrowest tag in front, what \<open>readBin\<close> consumed is what \<open>writeBin\<close> writes.\<close>

lemma readBin_Inr_narrowest:
  assumes "readBin s = (Inr p, s')" and "hd (r_in s) = narrowestTag (length p)"
  shows "\<exists>rest. r_in s = binPrefix (length p) @ p @ rest \<and> s' = s\<lparr>r_in := rest\<rparr>"
  using readBin_Inr [OF assms(1)] assms(2)
  by (auto simp: binPrefix_def narrowestTag_def MessagePackTypeBin8_def
        MessagePackTypeBin16_def MessagePackTypeBin32_def)

lemma readRequest_Inr:
  assumes "readRequest expectedMethod s = (Inr (k, m, p), s')"
  shows "\<exists>r3 s4. r_in s = MessagePackTypeFixedArray3 # MessagePackTypeU8 # k # r3 \<and> IsValid k \<and>
           readBin (s\<lparr>r_in := r3\<rparr>) = (Inr m, s4) \<and> (expectedMethod = [] \<or> m = expectedMethod) \<and>
           readBin s4 = (Inr p, s')"
proof -
  from assms obtain t1 s1 t2 s2 s3 s4 where
    b1: "ReadByte s = (Inr t1, s1)" "t1 = MessagePackTypeFixedArray3" and
    b2: "ReadByte s1 = (Inr t2, s2)" "t2 = MessagePackTypeU8" and
    b3: "ReadByte s2 = (Inr k, s3)" "IsValid k" and
    m: "readBin s3 = (Inr m, s4)" "expectedMethod = [] \<or> m = expectedMethod" and
    p: "readBin s4 = (Inr p, s')"
    unfolding readRequest_def
    by (auto split: prod.splits sum.splits if_splits)
  from b1 b2 b3 have "\<exists>r3. r_in s = MessagePackTypeFixedArray3 # MessagePackTypeU8 # k # r3
      \<and> s3 = s\<lparr>r_in := r3\<rparr>"
    by (auto dest!: ReadByte_Inr)
  with b3 m p show ?thesis by auto
qed

lemma readRequest_Inr_narrowest:
  assumes "readRequest expectedMethod s = (Inr (k, m, p), s')" and "usesNarrowestWidths s"
  shows "r_in s = envelopeBytes k m p @ r_in s' \<and> s' = s\<lparr>r_in := r_in s'\<rparr>"
proof -
  from readRequest_Inr [OF assms(1)] obtain r3 s4 where
    r: "r_in s = MessagePackTypeFixedArray3 # MessagePackTypeU8 # k # r3" and
    m: "readBin (s\<lparr>r_in := r3\<rparr>) = (Inr m, s4)" and
    p: "readBin s4 = (Inr p, s')"
    by blast
  from r have d3: "drop 3 (r_in s) = r3" by simp
  from assms(2) m p have tags: "hd r3 = narrowestTag (length m)" "hd (r_in s4) = narrowestTag (length p)"
    by (simp_all add: usesNarrowestWidths_def d3)
  from readBin_Inr_narrowest [OF m] tags(1) obtain r4 where
    r4: "r3 = binPrefix (length m) @ m @ r4" "s4 = s\<lparr>r_in := r4\<rparr>"
    by auto
  from readBin_Inr_narrowest [OF p tags(2)] r4 obtain r5 where
    r5: "r4 = binPrefix (length p) @ p @ r5" "s' = s\<lparr>r_in := r5\<rparr>"
    by auto
  from r r4 r5 show ?thesis by (simp add: envelopeBytes_def)
qed

subsection \<open>The example server\<close>

lemma exServer_sel [simp]:
  "r_in (exServer i e) = i" "w_buf (exServer i e) = []" "w_sent (exServer i e) = []"
  "w_err (exServer i e) = False" "w_broken (exServer i e) = False"
  "enabledCallbacks (exServer i e) = e" "fsLog (exServer i e) = []" "fs (exServer i e) = exFS"
  "requestId (exServer i e) = 0"
  by (simp_all add: exServer_def)

lemma exServer_r_in [simp]: "(exServer i e)\<lparr>r_in := j\<rparr> = exServer j e"
  by (simp add: exServer_def)

subsection \<open>Round trips\<close>

text \<open>
  C3. Take an envelope with a valid Kind and Method and Payload of at most
  \<open>2 ^ 32 - 1\<close> bytes each, and write it with \<^verbatim>\<open>writeMessage\<close> on a working writer
  whose buffer is empty (as it is after every \<^verbatim>\<open>writeMessage\<close>). The write succeeds,
  and a reader whose input starts with the bytes this write put on the output reads
  the same Kind, Method and Payload back with \<^verbatim>\<open>readRequest\<close>, and is left with
  the bytes that followed. This holds for every length, so also at 255, 256, 65535
  and 65536, where the width of the length prefix changes.
\<close>

theorem decode_encode_roundtrip:
  assumes "IsValid k" and "length m \<le> 2 ^ 32 - 1" and "length p \<le> 2 ^ 32 - 1"
    and "\<not> w_err w" and "\<not> w_broken w" and "w_buf w = []"
    and "r_in t = drop (length (w_sent w)) (w_sent (snd (writeMessage k m p w))) @ rest"
    and "expectedMethod = [] \<or> expectedMethod = m"
  shows "fst (writeMessage k m p w) = Inr () \<and>
         readRequest expectedMethod t = (Inr (k, m, p), t\<lparr>r_in := rest\<rparr>)"
proof -
  have w: "writeMessage k m p w =
      (Inr (), w\<lparr>w_buf := [], w_sent := w_sent w @ w_buf w @ envelopeBytes k m p\<rparr>)"
    using assms(4,5) by (rule writeMessage_ok)
  with assms(6,7) have r: "r_in t = envelopeBytes k m p @ rest" by simp
  from assms(2,3) have "length m < 2 ^ 32" "length p < 2 ^ 32" by simp_all
  with r assms(1,8) have "readRequest expectedMethod t = (Inr (k, m, p), t\<lparr>r_in := rest\<rparr>)"
    by (intro readRequest_envelope)
  with w show ?thesis by simp
qed

theorem decode_encode_roundtrip_witness:
  "IsValid MessageTypeRequest \<and>
   fst (writeMessage MessageTypeRequest (replicate 256 7) (str ''hello'') (exServer [] 0)) = Inr () \<and>
   readRequest []
     (exServer ([0x93, 0xCC, 1, 0xC5, 1, 0] @ replicate 256 7 @ [0xC4, 5] @ str ''hello'' @ [9]) 0)
     = (Inr (MessageTypeRequest, replicate 256 7, str ''hello''), exServer [9] 0)"
proof -
  have v: "IsValid MessageTypeRequest"
    by (simp add: IsValid_def MessageTypeRequest_def MessageTypeCall_def)
  have e: "envelopeBytes MessageTypeRequest (replicate 256 7) (str ''hello'')
       = [0x93, 0xCC, 1, 0xC5, 1, 0] @ replicate 256 7 @ [0xC4, 5] @ str ''hello''"
    by (simp add: envelopeBytes_def binPrefix_def PutUint16_def str_def
          MessagePackTypeFixedArray3_def MessagePackTypeU8_def MessageTypeRequest_def
          MessagePackTypeBin8_def MessagePackTypeBin16_def)
  have s: "r_in (exServer ([0x93, 0xCC, 1, 0xC5, 1, 0] @ replicate 256 7 @ [0xC4, 5]
                   @ str ''hello'' @ [9]) 0)
      = drop (length (w_sent (exServer [] 0)))
          (w_sent (snd (writeMessage MessageTypeRequest (replicate 256 7) (str ''hello'')
             (exServer [] 0)))) @ [9]"
    by (simp add: writeMessage_ok e)
  have l: "length (str ''hello'') \<le> 2 ^ 32 - 1"
    by (simp add: str_def)
  from decode_encode_roundtrip [OF v _ l _ _ _ s, of "[]"] v
  show ?thesis by simp
qed

text \<open>
  C4, as stated, fails: \<^verbatim>\<open>readBin\<close> accepts any of the three widths for any length
  that fits it, and \<^verbatim>\<open>writeBin\<close> always writes the narrowest. An envelope whose empty
  Method carries a 2-byte length decodes, and its re-encoding is one byte shorter.
\<close>

theorem encode_decode_roundtrip_counterexample:
  "readRequest [] (exServer [0x93, 0xCC, 1, 0xC5, 0, 0, 0xC4, 0] 0)
     = (Inr (1, [], []), exServer [] 0) \<and>
   writeMessage 1 [] [] (exServer [] 0)
     = (Inr (), (exServer [] 0)\<lparr>w_sent := [0x93, 0xCC, 1, 0xC4, 0, 0xC4, 0]\<rparr>) \<and>
   [0x93, 0xCC, 1, 0xC4, 0, 0xC4, 0] \<noteq> [0x93, 0xCC, 1, 0xC5, 0, 0, 0xC4, 0 :: byte]"
proof -
  have "readRequest [] (exServer [0x93, 0xCC, 1, 0xC5, 0, 0, 0xC4, 0] 0)
      = (Inr (1, [], []), exServer [] 0)"
    by (simp add: readRequest_def readBin_def ReadByte_def ReadFull_def IsValid_def Uint16_def
          MessagePackTypeFixedArray3_def MessagePackTypeU8_def MessageTypeRequest_def
          MessageTypeCall_def MessagePackTypeBin8_def MessagePackTypeBin16_def)
  moreover have "writeMessage 1 [] [] (exServer [] 0)
      = (Inr (), (exServer [] 0)\<lparr>w_sent := [0x93, 0xCC, 1, 0xC4, 0, 0xC4, 0]\<rparr>)"
    by (simp add: writeMessage_def writeBin_def WriteByte_def Write_def Flush_def exServer_def
          MessagePackTypeFixedArray3_def MessagePackTypeU8_def MessagePackTypeBin8_def)
  ultimately show ?thesis by simp
qed

text \<open>
  C4, amended. When \<^verbatim>\<open>readRequest\<close> decodes an envelope in which Method and Payload
  each carry the narrowest length prefix that fits their length, \<^verbatim>\<open>writeMessage\<close> of
  the decoded envelope, on a working writer with an empty buffer, sends exactly the
  bytes that \<^verbatim>\<open>readRequest\<close> consumed.
\<close>

theorem encode_decode_roundtrip_narrowest:
  assumes "readRequest expectedMethod s = (Inr (k, m, p), s')" and "usesNarrowestWidths s"
    and "\<not> w_err w" and "\<not> w_broken w" and "w_buf w = []"
  shows "r_in s = take (length (r_in s) - length (r_in s')) (r_in s) @ r_in s' \<and>
         writeMessage k m p w =
           (Inr (), w\<lparr>w_sent := w_sent w @ take (length (r_in s) - length (r_in s')) (r_in s)\<rparr>)"
proof -
  have "writeMessage k m p w =
      (Inr (), w\<lparr>w_buf := [], w_sent := w_sent w @ w_buf w @ envelopeBytes k m p\<rparr>)"
    using assms(3,4) by (rule writeMessage_ok)
  with assms(5) have w: "writeMessage k m p w = (Inr (), w\<lparr>w_sent := w_sent w @ envelopeBytes k m p\<rparr>)"
    by (cases w) simp
  have r: "r_in s = envelopeBytes k m p @ r_in s'"
    using readRequest_Inr_narrowest [OF assms(1,2)] by simp
  then have "take (length (r_in s) - length (r_in s')) (r_in s) = envelopeBytes k m p"
    by simp
  with w r show ?thesis by simp
qed

theorem encode_decode_roundtrip_narrowest_witness:
  "readRequest [] (exServer [0x93, 0xCC, 1, 0xC4, 0, 0xC4, 0, 9] 0)
     = (Inr (1, [], []), exServer [9] 0) \<and>
   usesNarrowestWidths (exServer [0x93, 0xCC, 1, 0xC4, 0, 0xC4, 0, 9] 0) \<and>
   writeMessage 1 [] [] (exServer [] 0)
     = (Inr (), (exServer [] 0)\<lparr>w_sent := [0x93, 0xCC, 1, 0xC4, 0, 0xC4, 0]\<rparr>)"
proof -
  have r: "readRequest [] (exServer [0x93, 0xCC, 1, 0xC4, 0, 0xC4, 0, 9] 0)
      = (Inr (1, [], []), exServer [9] 0)"
    by (simp add: readRequest_def readBin_def ReadByte_def ReadFull_def IsValid_def
          MessagePackTypeFixedArray3_def MessagePackTypeU8_def MessageTypeRequest_def
          MessageTypeCall_def MessagePackTypeBin8_def)
  have n: "usesNarrowestWidths (exServer [0x93, 0xCC, 1, 0xC4, 0, 0xC4, 0, 9] 0)"
    by (simp add: usesNarrowestWidths_def readBin_def ReadByte_def ReadFull_def
          narrowestTag_def MessagePackTypeBin8_def)
  from encode_decode_roundtrip_narrowest [OF r n, of "exServer [] 0"] r n
  show ?thesis by simp
qed

section \<open>Properties of the call client\<close>

lemma readRequest_intro:
  assumes "r_in s = MessagePackTypeFixedArray3 # MessagePackTypeU8 # k # r3" and "IsValid k"
    and "readBin (s\<lparr>r_in := r3\<rparr>) = (Inr m, s4)"
  shows "readRequest expectedMethod s =
           (if expectedMethod \<noteq> [] \<and> m \<noteq> expectedMethod
            then (Inl (ErrInvalidRequest (ExpectedMethod expectedMethod m)), s4)
            else (case readBin s4 of
                    (Inl e, s5) \<Rightarrow> (Inl e, s5)
                  | (Inr payload, s5) \<Rightarrow> (Inr (k, m, payload), s5)))"
  using assms unfolding readRequest_def
  by (simp add: ReadByte_def)

lemma readRequest_expected_Inr:
  assumes "readRequest expectedMethod s = (Inr (k, m, p), s')"
  shows "readRequest [] s = (Inr (k, m, p), s') \<and> (expectedMethod = [] \<or> m = expectedMethod)"
proof -
  from readRequest_Inr [OF assms] obtain r3 s4 where
    r: "r_in s = MessagePackTypeFixedArray3 # MessagePackTypeU8 # k # r3" "IsValid k"
       "readBin (s\<lparr>r_in := r3\<rparr>) = (Inr m, s4)" and
    e: "expectedMethod = [] \<or> m = expectedMethod" and p: "readBin s4 = (Inr p, s')"
    by blast
  from readRequest_intro [OF r, of "[]"] p e show ?thesis by simp
qed

lemma readRequest_any_Inr:
  assumes "readRequest [] s = (Inr (k, m, p), s')"
  shows "expectedMethod = [] \<or> m = expectedMethod
           \<Longrightarrow> readRequest expectedMethod s = (Inr (k, m, p), s')"
    and "expectedMethod \<noteq> [] \<Longrightarrow> m \<noteq> expectedMethod
           \<Longrightarrow> \<exists>s''. readRequest expectedMethod s
                 = (Inl (ErrInvalidRequest (ExpectedMethod expectedMethod m)), s'')"
proof -
  from readRequest_Inr [OF assms] obtain r3 s4 where
    r: "r_in s = MessagePackTypeFixedArray3 # MessagePackTypeU8 # k # r3" "IsValid k"
       "readBin (s\<lparr>r_in := r3\<rparr>) = (Inr m, s4)" and p: "readBin s4 = (Inr p, s')"
    by blast
  note i = readRequest_intro [OF r, of expectedMethod]
  show "expectedMethod = [] \<or> m = expectedMethod
           \<Longrightarrow> readRequest expectedMethod s = (Inr (k, m, p), s')"
    using i p by auto
  show "expectedMethod \<noteq> [] \<Longrightarrow> m \<noteq> expectedMethod
           \<Longrightarrow> \<exists>s''. readRequest expectedMethod s
                 = (Inl (ErrInvalidRequest (ExpectedMethod expectedMethod m)), s'')"
    using i by simp
qed

lemmas codec_eval =
  readRequest_def readBin_def ReadByte_def ReadFull_def IsValid_def Uint16_def Uint32_def
  writeMessage_def writeBin_def WriteByte_def Write_def Flush_def PutUint16_def PutUint32_def
  MessagePackTypeFixedArray3_def MessagePackTypeU8_def MessagePackTypeBin8_def
  MessagePackTypeBin16_def MessagePackTypeBin32_def
  MessageTypeRequest_def MessageTypeCallResponse_def MessageTypeCallError_def
  MessageTypeResponse_def MessageTypeError_def MessageTypeCall_def str_def

lemma exCall_sent:
  "writeMessage MessageTypeCall (str ''m'') (str ''p'') (exServer i 0)
     = (Inr (), (exServer i 0)\<lparr>w_sent := [0x93, 0xCC, 6, 0xC4, 1, 0x6D, 0xC4, 1, 0x70]\<rparr>)"
  by (simp add: codec_eval exServer_def)

text \<open>
  C9, as stated, fails for the empty method name: \<^verbatim>\<open>readRequest\<close> takes the empty
  \<^verbatim>\<open>expectedMethod\<close> as "no expectation", so \<^verbatim>\<open>call\<close> with method \<^verbatim>\<open>""\<close> returns the
  payload of a CallResponse whose Method is \<^verbatim>\<open>"n"\<close>.
\<close>

theorem call_reply_counterexample:
  "call Inr [] (str ''p'') (exServer [0x93, 0xCC, 2, 0xC4, 1, 0x6E, 0xC4, 2, 0x6F, 0x6B] 0)
     = (Inr (str ''ok''), (exServer [] 0)\<lparr>w_sent := [0x93, 0xCC, 6, 0xC4, 0, 0xC4, 1, 0x70]\<rparr>) \<and>
   readRequest [] ((exServer [0x93, 0xCC, 2, 0xC4, 1, 0x6E, 0xC4, 2, 0x6F, 0x6B] 0)
                     \<lparr>w_sent := [0x93, 0xCC, 6, 0xC4, 0, 0xC4, 1, 0x70]\<rparr>)
     = (Inr (MessageTypeCallResponse, str ''n'', str ''ok''),
        (exServer [] 0)\<lparr>w_sent := [0x93, 0xCC, 6, 0xC4, 0, 0xC4, 1, 0x70]\<rparr>) \<and>
   str ''n'' \<noteq> []"
  by (simp add: call_def codec_eval exServer_def)

text \<open>
  C9, amended to non-empty method names. For every non-empty method name \<open>m\<close>:
  when \<^verbatim>\<open>call\<close> returns a payload, the envelope read after the Call was sent is a
  CallResponse with Method \<open>m\<close> and that payload. And when the payload marshals,
  the writer works and the envelope read after the Call was sent is
  \<open>(k, method, pl)\<close>: a CallResponse with Method \<open>m\<close> makes \<^verbatim>\<open>call\<close> return \<open>pl\<close>; a
  CallError with Method \<open>m\<close> makes it return the client error carrying \<open>pl\<close>; a
  Method other than \<open>m\<close>, or Method \<open>m\<close> with any other Kind, makes it return an
  error wrapping \<^verbatim>\<open>ErrInvalidRequest\<close>, with no payload.
\<close>

theorem call_reply:
  assumes "m \<noteq> []"
  shows "(call marshal m payload s = (Inr resp, s') \<longrightarrow>
            (\<exists>jp. marshal payload = Inr jp \<and>
               readRequest [] (snd (writeMessage MessageTypeCall m jp s))
                 = (Inr (MessageTypeCallResponse, m, resp), s'))) \<and>
         (marshal payload = Inr jp \<and> \<not> w_err s \<and> \<not> w_broken s \<and>
          readRequest [] (snd (writeMessage MessageTypeCall m jp s)) = (Inr (k, method, pl), t) \<longrightarrow>
            (k = MessageTypeCallResponse \<and> method = m \<longrightarrow>
               call marshal m payload s = (Inr pl, t)) \<and>
            (k = MessageTypeCallError \<and> method = m \<longrightarrow>
               call marshal m payload s = (Inl (ErrClientError pl), t)) \<and>
            (method \<noteq> m \<longrightarrow>
               fst (call marshal m payload s) = Inl (ErrInvalidRequest (ExpectedMethod m method))) \<and>
            (method = m \<and> k \<noteq> MessageTypeCallResponse \<and> k \<noteq> MessageTypeCallError \<longrightarrow>
               call marshal m payload s = (Inl (ErrInvalidRequest (ExpectedCallReply k)), t)))"
proof (intro conjI impI)
  assume c: "call marshal m payload s = (Inr resp, s')"
  then obtain jp where jp: "marshal payload = Inr jp"
    by (cases "marshal payload") (auto simp: call_def)
  with c obtain s1 where w: "writeMessage MessageTypeCall m jp s = (Inr (), s1)"
    by (auto simp: call_def split: prod.splits sum.splits)
  with c jp obtain k meth where
    r: "readRequest m s1 = (Inr (k, meth, resp), s')" and k: "k = MessageTypeCallResponse"
    by (auto simp: call_def split: prod.splits sum.splits if_splits)
  from readRequest_expected_Inr [OF r] assms k w jp
  show "\<exists>jp. marshal payload = Inr jp \<and>
               readRequest [] (snd (writeMessage MessageTypeCall m jp s))
                 = (Inr (MessageTypeCallResponse, m, resp), s')"
    by auto
next
  assume a: "marshal payload = Inr jp \<and> \<not> w_err s \<and> \<not> w_broken s \<and>
          readRequest [] (snd (writeMessage MessageTypeCall m jp s)) = (Inr (k, method, pl), t)"
  then obtain s1 where w: "writeMessage MessageTypeCall m jp s = (Inr (), s1)"
    by (simp add: writeMessage_ok)
  with a have r: "readRequest [] s1 = (Inr (k, method, pl), t)" by simp
  {
    assume "k = MessageTypeCallResponse \<and> method = m"
    with a w readRequest_any_Inr(1) [OF r, of m] show "call marshal m payload s = (Inr pl, t)"
      by (simp add: call_def MessageTypeCallResponse_def MessageTypeCallError_def)
  next
    assume "k = MessageTypeCallError \<and> method = m"
    with a w readRequest_any_Inr(1) [OF r, of m]
    show "call marshal m payload s = (Inl (ErrClientError pl), t)"
      by (simp add: call_def MessageTypeCallResponse_def MessageTypeCallError_def)
  next
    assume "method \<noteq> m"
    with readRequest_any_Inr(2) [OF r, of m] assms obtain s'' where
      "readRequest m s1 = (Inl (ErrInvalidRequest (ExpectedMethod m method)), s'')"
      by blast
    with a w
    show "fst (call marshal m payload s) = Inl (ErrInvalidRequest (ExpectedMethod m method))"
      by (simp add: call_def)
  next
    assume "method = m \<and> k \<noteq> MessageTypeCallResponse \<and> k \<noteq> MessageTypeCallError"
    with a w readRequest_any_Inr(1) [OF r, of m]
    show "call marshal m payload s = (Inl (ErrInvalidRequest (ExpectedCallReply k)), t)"
      by (simp add: call_def)
  }
qed

theorem call_reply_witness:
  "call Inr (str ''m'') (str ''p'') (exServer [0x93, 0xCC, 2, 0xC4, 1, 0x6D, 0xC4, 2, 0x6F, 0x6B] 0)
     = (Inr (str ''ok''), (exServer [] 0)\<lparr>w_sent := [0x93, 0xCC, 6, 0xC4, 1, 0x6D, 0xC4, 1, 0x70]\<rparr>) \<and>
   readRequest [] ((exServer [0x93, 0xCC, 2, 0xC4, 1, 0x6D, 0xC4, 2, 0x6F, 0x6B] 0)
                     \<lparr>w_sent := [0x93, 0xCC, 6, 0xC4, 1, 0x6D, 0xC4, 1, 0x70]\<rparr>)
     = (Inr (MessageTypeCallResponse, str ''m'', str ''ok''),
        (exServer [] 0)\<lparr>w_sent := [0x93, 0xCC, 6, 0xC4, 1, 0x6D, 0xC4, 1, 0x70]\<rparr>) \<and>
   call Inr (str ''m'') (str ''p'') (exServer [0x93, 0xCC, 3, 0xC4, 1, 0x6D, 0xC4, 2, 0x6F, 0x6B] 0)
     = (Inl (ErrClientError (str ''ok'')),
        (exServer [] 0)\<lparr>w_sent := [0x93, 0xCC, 6, 0xC4, 1, 0x6D, 0xC4, 1, 0x70]\<rparr>) \<and>
   fst (call Inr (str ''m'') (str ''p'') (exServer [0x93, 0xCC, 2, 0xC4, 1, 0x6E, 0xC4, 2, 0x6F, 0x6B] 0))
     = Inl (ErrInvalidRequest (ExpectedMethod (str ''m'') (str ''n''))) \<and>
   call Inr (str ''m'') (str ''p'') (exServer [0x93, 0xCC, 1, 0xC4, 1, 0x6D, 0xC4, 2, 0x6F, 0x6B] 0)
     = (Inl (ErrInvalidRequest (ExpectedCallReply MessageTypeRequest)),
        (exServer [] 0)\<lparr>w_sent := [0x93, 0xCC, 6, 0xC4, 1, 0x6D, 0xC4, 1, 0x70]\<rparr>)"
proof -
  define T where "T = (exServer [] 0)\<lparr>w_sent := [0x93, 0xCC, 6, 0xC4, 1, 0x6D, 0xC4, 1, 0x70]\<rparr>"
  define S where "S j c = exServer [0x93, 0xCC, j, 0xC4, 1, c, 0xC4, 2, 0x6F, 0x6B] 0" for j c :: byte
  have ne: "str ''m'' \<noteq> []" "str ''n'' \<noteq> str ''m''"
    by (simp_all add: str_def)
  have w: "snd (writeMessage MessageTypeCall (str ''m'') (str ''p'') (S j c))
        = (S j c)\<lparr>w_sent := [0x93, 0xCC, 6, 0xC4, 1, 0x6D, 0xC4, 1, 0x70]\<rparr>" for j c
    by (simp add: S_def exCall_sent)
  have h: "\<not> w_err (S j c)" "\<not> w_broken (S j c)" for j c
    by (simp_all add: S_def)
  have r2: "readRequest [] ((S 2 0x6D)\<lparr>w_sent := [0x93, 0xCC, 6, 0xC4, 1, 0x6D, 0xC4, 1, 0x70]\<rparr>)
      = (Inr (MessageTypeCallResponse, str ''m'', str ''ok''), T)"
    by (simp add: codec_eval exServer_def S_def T_def)
  have r3: "readRequest [] ((S 3 0x6D)\<lparr>w_sent := [0x93, 0xCC, 6, 0xC4, 1, 0x6D, 0xC4, 1, 0x70]\<rparr>)
      = (Inr (MessageTypeCallError, str ''m'', str ''ok''), T)"
    by (simp add: codec_eval exServer_def S_def T_def)
  have rn: "readRequest [] ((S 2 0x6E)\<lparr>w_sent := [0x93, 0xCC, 6, 0xC4, 1, 0x6D, 0xC4, 1, 0x70]\<rparr>)
      = (Inr (MessageTypeCallResponse, str ''n'', str ''ok''), T)"
    by (simp add: codec_eval exServer_def S_def T_def)
  have r1: "readRequest [] ((S 1 0x6D)\<lparr>w_sent := [0x93, 0xCC, 6, 0xC4, 1, 0x6D, 0xC4, 1, 0x70]\<rparr>)
      = (Inr (MessageTypeRequest, str ''m'', str ''ok''), T)"
    by (simp add: codec_eval exServer_def S_def T_def)
  have k: "MessageTypeRequest \<noteq> MessageTypeCallResponse" "MessageTypeRequest \<noteq> MessageTypeCallError"
    by (simp_all add: MessageTypeRequest_def MessageTypeCallResponse_def MessageTypeCallError_def)
  have c1: "call Inr (str ''m'') (str ''p'') (S 2 0x6D) = (Inr (str ''ok''), T)"
    using call_reply [OF ne(1), of Inr "str ''p''" "S 2 0x6D" "str ''ok''" T "str ''p''"
        MessageTypeCallResponse "str ''m''" "str ''ok''" T] h
    by (simp only: w r2 simp_thms)
  have c0: "readRequest [] (snd (writeMessage MessageTypeCall (str ''m'') (str ''p'') (S 2 0x6D)))
        = (Inr (MessageTypeCallResponse, str ''m'', str ''ok''), T)"
    using call_reply [OF ne(1), of Inr "str ''p''" "S 2 0x6D" "str ''ok''" T "str ''p''"
        MessageTypeCallResponse "str ''m''" "str ''ok''" T] c1
    by auto
  have c2: "call Inr (str ''m'') (str ''p'') (S 3 0x6D) = (Inl (ErrClientError (str ''ok'')), T)"
    using call_reply [OF ne(1), of Inr "str ''p''" "S 3 0x6D" "str ''ok''" T "str ''p''"
        MessageTypeCallError "str ''m''" "str ''ok''" T] h
    by (simp only: w r3 simp_thms)
  have c3: "fst (call Inr (str ''m'') (str ''p'') (S 2 0x6E))
        = Inl (ErrInvalidRequest (ExpectedMethod (str ''m'') (str ''n'')))"
    using call_reply [OF ne(1), of Inr "str ''p''" "S 2 0x6E" "str ''ok''" T "str ''p''"
        MessageTypeCallResponse "str ''n''" "str ''ok''" T] h ne(2)
    by (simp only: w rn simp_thms)
  have c4: "call Inr (str ''m'') (str ''p'') (S 1 0x6D)
        = (Inl (ErrInvalidRequest (ExpectedCallReply MessageTypeRequest)), T)"
    using call_reply [OF ne(1), of Inr "str ''p''" "S 1 0x6D" "str ''ok''" T "str ''p''"
        MessageTypeRequest "str ''m''" "str ''ok''" T] h k
    by (simp only: w r1 simp_thms)
  from c0 c1 c2 c3 c4 show ?thesis
    unfolding w by (simp only: S_def T_def simp_thms)
qed

section \<open>Properties of the filesystem adapter\<close>

lemma ioOnly_refl [simp]: "ioOnly s s"
  by (simp add: ioOnly_def)

lemma ioOnly_trans: "ioOnly s t \<Longrightarrow> ioOnly t u \<Longrightarrow> ioOnly s u"
  by (simp add: ioOnly_def)

lemma ReadByte_io: "ReadByte s = (r, s') \<Longrightarrow> ioOnly s s'"
  by (auto simp: ReadByte_def ioOnly_def split: list.splits)

lemma ReadFull_io: "ReadFull n s = (r, s') \<Longrightarrow> ioOnly s s'"
  by (auto simp: ReadFull_def ioOnly_def split: if_splits)

lemma readBin_io: "readBin s = (r, s') \<Longrightarrow> ioOnly s s'"
  unfolding readBin_def
  by (auto split: prod.splits sum.splits if_splits dest!: ReadByte_io ReadFull_io
           simp: ioOnly_def)

lemma readRequest_io: "readRequest e s = (r, s') \<Longrightarrow> ioOnly s s'"
  unfolding readRequest_def
  by (auto split: prod.splits sum.splits if_splits dest!: ReadByte_io readBin_io
           simp: ioOnly_def)

lemma writeMessage_io: "writeMessage k m p s = (r, s') \<Longrightarrow> ioOnly s s'"
proof (cases "w_err s")
  case True
  then show "writeMessage k m p s = (r, s') \<Longrightarrow> ioOnly s s'"
    by (auto simp: writeMessage_err)
next
  case False
  then show "writeMessage k m p s = (r, s') \<Longrightarrow> ioOnly s s'"
    by (cases "w_broken s") (auto simp: writeMessage_ok writeMessage_broken ioOnly_def)
qed

lemma call_io: "call marshal m p s = (r, s') \<Longrightarrow> ioOnly s s'"
  unfolding call_def
  by (auto split: prod.splits sum.splits if_splits dest!: writeMessage_io readRequest_io
           simp: ioOnly_def)

text \<open>
  C6. With the \<^verbatim>\<open>fileExists\<close> bit off, \<^verbatim>\<open>FileExists\<close> returns the answer of the local
  filesystem and changes nothing but the log of local calls: nothing is written,
  nothing is read. With the bit on and a Call that returned \<open>result\<close>, leaving the
  server in \<open>s1\<close> (whose log of local calls is still that of \<open>s\<close>): \<^verbatim>\<open>"true"\<close> gives
  true and the state \<open>s1\<close>, so no local call; the empty payload gives the answer of
  the local filesystem; any other non-empty payload gives false and the state \<open>s1\<close>.
\<close>

theorem FileExists_cases:
  "(enabledCallbacks s AND CallbackFileExists = 0 \<longrightarrow>
      FileExists E path s
        = (Returned (fsFileExists (fs s) path), s\<lparr>fsLog := fsLog s @ [CallFileExists path]\<rparr>)) \<and>
   (enabledCallbacks s AND CallbackFileExists \<noteq> 0 \<and>
    call (jsonMarshalString E) (str ''fileExists'') path s = (Inr result, s1) \<longrightarrow>
      fsLog s1 = fsLog s \<and>
      (result = str ''true'' \<longrightarrow> FileExists E path s = (Returned True, s1)) \<and>
      (result = [] \<longrightarrow>
         FileExists E path s
           = (Returned (fsFileExists (fs s) path), s1\<lparr>fsLog := fsLog s @ [CallFileExists path]\<rparr>)) \<and>
      (result \<noteq> [] \<and> result \<noteq> str ''true'' \<longrightarrow> FileExists E path s = (Returned False, s1)))"
proof (intro conjI impI)
  assume "enabledCallbacks s AND CallbackFileExists = 0"
  then show "FileExists E path s
        = (Returned (fsFileExists (fs s) path), s\<lparr>fsLog := fsLog s @ [CallFileExists path]\<rparr>)"
    by (simp add: FileExists_def localFileExists_def)
next
  assume a: "enabledCallbacks s AND CallbackFileExists \<noteq> 0 \<and>
    call (jsonMarshalString E) (str ''fileExists'') path s = (Inr result, s1)"
  then have io: "ioOnly s s1" by (auto dest: call_io)
  then show "fsLog s1 = fsLog s" by (simp add: ioOnly_def)
  have t: "str ''true'' \<noteq> []" by (simp add: str_def)
  {
    assume "result = str ''true''"
    with a t show "FileExists E path s = (Returned True, s1)"
      by (simp add: FileExists_def)
  next
    assume "result = []"
    with a io show "FileExists E path s
           = (Returned (fsFileExists (fs s) path), s1\<lparr>fsLog := fsLog s @ [CallFileExists path]\<rparr>)"
      by (simp add: FileExists_def localFileExists_def ioOnly_def)
  next
    assume "result \<noteq> [] \<and> result \<noteq> str ''true''"
    with a show "FileExists E path s = (Returned False, s1)"
      by (simp add: FileExists_def)
  }
qed

text \<open>
  C5. With the \<^verbatim>\<open>readFile\<close> bit off, or for a path that starts with \<^verbatim>\<open>bundled://\<close>,
  \<^verbatim>\<open>ReadFile\<close> returns the answer of the local filesystem and changes nothing but
  the log of local calls, so no Call is sent. With the bit on, another path, and a
  Call that returned \<open>data\<close>, leaving the server in \<open>s1\<close>: \<^verbatim>\<open>"null"\<close> gives
  \<^verbatim>\<open>("", false)\<close> and the state \<open>s1\<close>, so no local call; the empty payload gives the
  answer of the local filesystem.
\<close>

theorem ReadFile_cases:
  "(enabledCallbacks s AND CallbackReadFile = 0 \<or> HasPrefix path (str ''bundled://'') \<longrightarrow>
      ReadFile E path s
        = (Returned (fsReadFile (fs s) path), s\<lparr>fsLog := fsLog s @ [CallReadFile path]\<rparr>)) \<and>
   (enabledCallbacks s AND CallbackReadFile \<noteq> 0 \<and> \<not> HasPrefix path (str ''bundled://'') \<and>
    call (jsonMarshalString E) (str ''readFile'') path s = (Inr data, s1) \<longrightarrow>
      fsLog s1 = fsLog s \<and>
      (data = str ''null'' \<longrightarrow> ReadFile E path s = (Returned ([], False), s1)) \<and>
      (data = [] \<longrightarrow>
         ReadFile E path s
           = (Returned (fsReadFile (fs s) path), s1\<lparr>fsLog := fsLog s @ [CallReadFile path]\<rparr>)))"
proof (intro conjI impI)
  assume "enabledCallbacks s AND CallbackReadFile = 0 \<or> HasPrefix path (str ''bundled://'')"
  then show "ReadFile E path s
        = (Returned (fsReadFile (fs s) path), s\<lparr>fsLog := fsLog s @ [CallReadFile path]\<rparr>)"
    by (auto simp: ReadFile_def localReadFile_def)
next
  assume a: "enabledCallbacks s AND CallbackReadFile \<noteq> 0 \<and> \<not> HasPrefix path (str ''bundled://'') \<and>
    call (jsonMarshalString E) (str ''readFile'') path s = (Inr data, s1)"
  then have io: "ioOnly s s1" by (auto dest: call_io)
  then show "fsLog s1 = fsLog s" by (simp add: ioOnly_def)
  have t: "str ''null'' \<noteq> []" by (simp add: str_def)
  {
    assume "data = str ''null''"
    with a show "ReadFile E path s = (Returned ([], False), s1)"
      by (simp add: ReadFile_def)
  next
    assume "data = []"
    with a io t show "ReadFile E path s
           = (Returned (fsReadFile (fs s) path), s1\<lparr>fsLog := fsLog s @ [CallReadFile path]\<rparr>)"
      by (simp add: ReadFile_def localReadFile_def ioOnly_def)
  }
qed

text \<open>
  C7, amended. With the \<^verbatim>\<open>getAccessibleEntries\<close> bit on and a Call that returned
  \<open>result\<close>: when \<open>result\<close> is empty, or unmarshals to the nil pointer as the JSON
  value \<^verbatim>\<open>null\<close> does, \<^verbatim>\<open>GetAccessibleEntries\<close> returns the answer of the local
  filesystem; only a non-empty \<open>result\<close> that unmarshals to a struct is returned as
  the answer, with no local call. With the bit off the local filesystem answers.
\<close>

theorem GetAccessibleEntries_cases:
  "(enabledCallbacks s AND CallbackGetAccessibleEntries = 0 \<longrightarrow>
      GetAccessibleEntries E path s
        = (Returned (fsGetAccessibleEntries (fs s) path),
           s\<lparr>fsLog := fsLog s @ [CallGetAccessibleEntries path]\<rparr>)) \<and>
   (enabledCallbacks s AND CallbackGetAccessibleEntries \<noteq> 0 \<and>
    call (jsonMarshalString E) (str ''getAccessibleEntries'') path s = (Inr result, s1) \<longrightarrow>
      fsLog s1 = fsLog s \<and>
      (result = [] \<or> jsonUnmarshalEntries E result = Inr None \<longrightarrow>
         GetAccessibleEntries E path s
           = (Returned (fsGetAccessibleEntries (fs s) path),
              s1\<lparr>fsLog := fsLog s @ [CallGetAccessibleEntries path]\<rparr>)) \<and>
      (result \<noteq> [] \<and> jsonUnmarshalEntries E result = Inr (Some rawEntries) \<longrightarrow>
         GetAccessibleEntries E path s
           = (Returned \<lparr>Files = Files rawEntries, Directories = Directories rawEntries\<rparr>, s1)))"
proof (intro conjI impI)
  assume "enabledCallbacks s AND CallbackGetAccessibleEntries = 0"
  then show "GetAccessibleEntries E path s
        = (Returned (fsGetAccessibleEntries (fs s) path),
           s\<lparr>fsLog := fsLog s @ [CallGetAccessibleEntries path]\<rparr>)"
    by (simp add: GetAccessibleEntries_def localGetAccessibleEntries_def)
next
  assume a: "enabledCallbacks s AND CallbackGetAccessibleEntries \<noteq> 0 \<and>
    call (jsonMarshalString E) (str ''getAccessibleEntries'') path s = (Inr result, s1)"
  then have io: "ioOnly s s1" by (auto dest: call_io)
  then show "fsLog s1 = fsLog s" by (simp add: ioOnly_def)
  {
    assume "result = [] \<or> jsonUnmarshalEntries E result = Inr None"
    with a io show "GetAccessibleEntries E path s
           = (Returned (fsGetAccessibleEntries (fs s) path),
              s1\<lparr>fsLog := fsLog s @ [CallGetAccessibleEntries path]\<rparr>)"
      by (auto simp: GetAccessibleEntries_def localGetAccessibleEntries_def ioOnly_def)
  next
    assume "result \<noteq> [] \<and> jsonUnmarshalEntries E result = Inr (Some rawEntries)"
    with a show "GetAccessibleEntries E path s
           = (Returned \<lparr>Files = Files rawEntries, Directories = Directories rawEntries\<rparr>, s1)"
      by (simp add: GetAccessibleEntries_def)
  }
qed


lemma bits_eval:
  "CallbackFileExists \<noteq> 0" "CallbackReadFile \<noteq> 0" "CallbackGetAccessibleEntries \<noteq> 0"
  by (simp_all add: CallbackFileExists_def CallbackReadFile_def CallbackGetAccessibleEntries_def)

lemma call_reads:
  assumes "marshal payload = Inr jp" and "\<not> w_err s" and "\<not> w_broken s"
    and "r_in s = envelopeBytes k m pl @ rest" and "IsValid k"
    and "length m < 2 ^ 32" and "length pl < 2 ^ 32"
  shows "call marshal m payload s =
           (if k \<noteq> MessageTypeCallResponse \<and> k \<noteq> MessageTypeCallError
              then Inl (ErrInvalidRequest (ExpectedCallReply k))
            else if k = MessageTypeCallError then Inl (ErrClientError pl)
            else Inr pl,
            s\<lparr>w_buf := [], w_sent := w_sent s @ w_buf s @ envelopeBytes MessageTypeCall m jp,
              r_in := rest\<rparr>)"
proof -
  let ?s1 = "s\<lparr>w_buf := [], w_sent := w_sent s @ w_buf s @ envelopeBytes MessageTypeCall m jp\<rparr>"
  have w: "writeMessage MessageTypeCall m jp s = (Inr (), ?s1)"
    using assms(2,3) by (rule writeMessage_ok)
  have "r_in ?s1 = envelopeBytes k m pl @ rest"
    using assms(4) by simp
  then have r: "readRequest m ?s1 = (Inr (k, m, pl), ?s1\<lparr>r_in := rest\<rparr>)"
    using assms(5,6,7) by (intro readRequest_envelope) simp_all
  show ?thesis
    by (simp add: call_def assms(1) w r)
qed

lemma exReply:
  "[0x93, 0xCC, 2, 0xC4, 10] @ str ''fileExists'' @ [0xC4, 4] @ str ''true''
     = envelopeBytes MessageTypeCallResponse (str ''fileExists'') (str ''true'')"
  "[0x93, 0xCC, 2, 0xC4, 10] @ str ''fileExists'' @ [0xC4, 5] @ str ''false''
     = envelopeBytes MessageTypeCallResponse (str ''fileExists'') (str ''false'')"
  "[0x93, 0xCC, 2, 0xC4, 10] @ str ''fileExists'' @ [0xC4, 0]
     = envelopeBytes MessageTypeCallResponse (str ''fileExists'') []"
  "[0x93, 0xCC, 2, 0xC4, 8] @ str ''readFile'' @ [0xC4, 4] @ str ''null''
     = envelopeBytes MessageTypeCallResponse (str ''readFile'') (str ''null'')"
  "[0x93, 0xCC, 2, 0xC4, 8] @ str ''readFile'' @ [0xC4, 0]
     = envelopeBytes MessageTypeCallResponse (str ''readFile'') []"
  "[0x93, 0xCC, 2, 0xC4, 20] @ str ''getAccessibleEntries'' @ [0xC4, 4] @ str ''null''
     = envelopeBytes MessageTypeCallResponse (str ''getAccessibleEntries'') (str ''null'')"
  "[0x93, 0xCC, 2, 0xC4, 20] @ str ''getAccessibleEntries'' @ [0xC4, 0]
     = envelopeBytes MessageTypeCallResponse (str ''getAccessibleEntries'') []"
  by (simp_all add: envelopeBytes_def binPrefix_def str_def MessagePackTypeFixedArray3_def
        MessagePackTypeU8_def MessagePackTypeBin8_def MessageTypeCallResponse_def)

lemma exCall:
  assumes "input = envelopeBytes MessageTypeCallResponse m pl"
    and "length m < 100" and "length pl < 100"
  shows "call (jsonMarshalString exEnv) m path (exServer input e)
     = (Inr pl, (exServer [] e)\<lparr>w_sent := envelopeBytes MessageTypeCall m ([0x22] @ path @ [0x22])\<rparr>)"
proof -
  have "call (jsonMarshalString exEnv) m path (exServer input e)
      = (Inr pl, (exServer input e)\<lparr>w_buf := [],
           w_sent := w_sent (exServer input e) @ w_buf (exServer input e)
              @ envelopeBytes MessageTypeCall m ([0x22] @ path @ [0x22]),
           r_in := []\<rparr>)"
    using assms
    by (subst call_reads [where k=MessageTypeCallResponse and pl=pl and rest="[]"
          and jp="[0x22] @ path @ [0x22]"])
       (simp_all add: exEnv_def IsValid_def MessageTypeCallResponse_def MessageTypeRequest_def
          MessageTypeCall_def MessageTypeCallError_def)
  then show ?thesis by (simp add: exServer_def)
qed

theorem FileExists_cases_witness:
  "FileExists exEnv (str ''/local.ts'') (exServer [] 0)
     = (Returned True, (exServer [] 0)\<lparr>fsLog := [CallFileExists (str ''/local.ts'')]\<rparr>) \<and>
   FileExists exEnv (str ''/remote.ts'')
       (exServer ([0x93, 0xCC, 2, 0xC4, 10] @ str ''fileExists'' @ [0xC4, 4] @ str ''true'')
          CallbackFileExists)
     = (Returned True,
        (exServer [] CallbackFileExists)
          \<lparr>w_sent := envelopeBytes MessageTypeCall (str ''fileExists'')
                       ([0x22] @ str ''/remote.ts'' @ [0x22])\<rparr>) \<and>
   FileExists exEnv (str ''/local.ts'')
       (exServer ([0x93, 0xCC, 2, 0xC4, 10] @ str ''fileExists'' @ [0xC4, 0]) CallbackFileExists)
     = (Returned True,
        (exServer [] CallbackFileExists)
          \<lparr>w_sent := envelopeBytes MessageTypeCall (str ''fileExists'')
                       ([0x22] @ str ''/local.ts'' @ [0x22]),
           fsLog := [CallFileExists (str ''/local.ts'')]\<rparr>) \<and>
   FileExists exEnv (str ''/local.ts'')
       (exServer ([0x93, 0xCC, 2, 0xC4, 10] @ str ''fileExists'' @ [0xC4, 5] @ str ''false'')
          CallbackFileExists)
     = (Returned False,
        (exServer [] CallbackFileExists)
          \<lparr>w_sent := envelopeBytes MessageTypeCall (str ''fileExists'')
                       ([0x22] @ str ''/local.ts'' @ [0x22])\<rparr>)"
proof -
  have l: "length (str ''fileExists'') < 100" "length (str ''true'') < 100"
    "length (str ''false'') < 100"
    by (simp_all add: str_def)
  have ne: "str ''false'' \<noteq> []" "str ''false'' \<noteq> str ''true''"
    by (simp_all add: str_def)
  have loc: "fsFileExists exFS (str ''/local.ts'')"
    by (simp add: exFS_def)
  note c1 = exCall [OF exReply(1) l(1) l(2), of "str ''/remote.ts''" CallbackFileExists]
  note c2 = exCall [OF exReply(3) l(1), of "str ''/local.ts''" CallbackFileExists]
  note c3 = exCall [OF exReply(2) l(1) l(3), of "str ''/local.ts''" CallbackFileExists]
  let ?T = "\<lambda>path. (exServer [] CallbackFileExists)
          \<lparr>w_sent := envelopeBytes MessageTypeCall (str ''fileExists'') ([0x22] @ path @ [0x22])\<rparr>"
  have w0: "FileExists exEnv (str ''/local.ts'') (exServer [] 0)
     = (Returned True, (exServer [] 0)\<lparr>fsLog := [CallFileExists (str ''/local.ts'')]\<rparr>)"
    using FileExists_cases [where s="exServer [] 0" and E=exEnv and path="str ''/local.ts''"
        and result="[]" and ?s1.0="exServer [] 0"] loc
    by (simp add: bits_eval)
  have w1: "FileExists exEnv (str ''/remote.ts'')
       (exServer ([0x93, 0xCC, 2, 0xC4, 10] @ str ''fileExists'' @ [0xC4, 4] @ str ''true'')
          CallbackFileExists)
     = (Returned True, ?T (str ''/remote.ts''))"
    using FileExists_cases [where s=
        "exServer ([0x93, 0xCC, 2, 0xC4, 10] @ str ''fileExists'' @ [0xC4, 4] @ str ''true'')
          CallbackFileExists" and E=exEnv and path="str ''/remote.ts''" and result="str ''true''"
        and ?s1.0="?T (str ''/remote.ts'')"] c1
    by (simp add: bits_eval)
  have w2: "FileExists exEnv (str ''/local.ts'')
       (exServer ([0x93, 0xCC, 2, 0xC4, 10] @ str ''fileExists'' @ [0xC4, 0]) CallbackFileExists)
     = (Returned True, (?T (str ''/local.ts''))\<lparr>fsLog := [CallFileExists (str ''/local.ts'')]\<rparr>)"
    using FileExists_cases [where s=
        "exServer ([0x93, 0xCC, 2, 0xC4, 10] @ str ''fileExists'' @ [0xC4, 0]) CallbackFileExists"
        and E=exEnv and path="str ''/local.ts''" and result="[]"
        and ?s1.0="?T (str ''/local.ts'')"] c2 loc
    by (simp add: bits_eval)
  have w3: "FileExists exEnv (str ''/local.ts'')
       (exServer ([0x93, 0xCC, 2, 0xC4, 10] @ str ''fileExists'' @ [0xC4, 5] @ str ''false'')
          CallbackFileExists)
     = (Returned False, ?T (str ''/local.ts''))"
    using FileExists_cases [where s=
        "exServer ([0x93, 0xCC, 2, 0xC4, 10] @ str ''fileExists'' @ [0xC4, 5] @ str ''false'')
          CallbackFileExists" and E=exEnv and path="str ''/local.ts''" and result="str ''false''"
        and ?s1.0="?T (str ''/local.ts'')"] c3 ne
    by (simp add: bits_eval)
  from w0 w1 w2 w3 show ?thesis by simp
qed


theorem ReadFile_cases_witness:
  "ReadFile exEnv (str ''/local.ts'') (exServer [] 0)
     = (Returned (str ''local'', True),
        (exServer [] 0)\<lparr>fsLog := [CallReadFile (str ''/local.ts'')]\<rparr>) \<and>
   ReadFile exEnv (str ''bundled:///libs/lib.d.ts'') (exServer [] CallbackReadFile)
     = (Returned ([], False),
        (exServer [] CallbackReadFile)\<lparr>fsLog := [CallReadFile (str ''bundled:///libs/lib.d.ts'')]\<rparr>) \<and>
   ReadFile exEnv (str ''/local.ts'')
       (exServer ([0x93, 0xCC, 2, 0xC4, 8] @ str ''readFile'' @ [0xC4, 4] @ str ''null'')
          CallbackReadFile)
     = (Returned ([], False),
        (exServer [] CallbackReadFile)
          \<lparr>w_sent := envelopeBytes MessageTypeCall (str ''readFile'')
                       ([0x22] @ str ''/local.ts'' @ [0x22])\<rparr>) \<and>
   ReadFile exEnv (str ''/local.ts'')
       (exServer ([0x93, 0xCC, 2, 0xC4, 8] @ str ''readFile'' @ [0xC4, 0]) CallbackReadFile)
     = (Returned (str ''local'', True),
        (exServer [] CallbackReadFile)
          \<lparr>w_sent := envelopeBytes MessageTypeCall (str ''readFile'')
                       ([0x22] @ str ''/local.ts'' @ [0x22]),
           fsLog := [CallReadFile (str ''/local.ts'')]\<rparr>)"
proof -
  have l: "length (str ''readFile'') < 100" "length (str ''null'') < 100"
    by (simp_all add: str_def)
  have loc: "fsReadFile exFS (str ''/local.ts'') = (str ''local'', True)"
    "fsReadFile exFS (str ''bundled:///libs/lib.d.ts'') = ([], False)"
    by (simp_all add: exFS_def str_def)
  have pre: "HasPrefix (str ''bundled:///libs/lib.d.ts'') (str ''bundled://'')"
    "\<not> HasPrefix (str ''/local.ts'') (str ''bundled://'')"
    by (simp_all add: HasPrefix_def str_def)
  note c1 = exCall [OF exReply(4) l(1) l(2), of "str ''/local.ts''" CallbackReadFile]
  note c2 = exCall [OF exReply(5) l(1), of "str ''/local.ts''" CallbackReadFile]
  let ?T = "(exServer [] CallbackReadFile)
          \<lparr>w_sent := envelopeBytes MessageTypeCall (str ''readFile'')
                       ([0x22] @ str ''/local.ts'' @ [0x22])\<rparr>"
  have w0: "ReadFile exEnv (str ''/local.ts'') (exServer [] 0)
     = (Returned (str ''local'', True),
        (exServer [] 0)\<lparr>fsLog := [CallReadFile (str ''/local.ts'')]\<rparr>)"
    using ReadFile_cases [where s="exServer [] 0" and E=exEnv and path="str ''/local.ts''"
        and data="[]" and ?s1.0="exServer [] 0"] loc
    by simp
  have w1: "ReadFile exEnv (str ''bundled:///libs/lib.d.ts'') (exServer [] CallbackReadFile)
     = (Returned ([], False),
        (exServer [] CallbackReadFile)\<lparr>fsLog := [CallReadFile (str ''bundled:///libs/lib.d.ts'')]\<rparr>)"
    using ReadFile_cases [where s="exServer [] CallbackReadFile" and E=exEnv
        and path="str ''bundled:///libs/lib.d.ts''"
        and data="[]" and ?s1.0="exServer [] 0"] loc pre
    by simp
  have w2: "ReadFile exEnv (str ''/local.ts'')
       (exServer ([0x93, 0xCC, 2, 0xC4, 8] @ str ''readFile'' @ [0xC4, 4] @ str ''null'')
          CallbackReadFile)
     = (Returned ([], False), ?T)"
    using ReadFile_cases [where s=
        "exServer ([0x93, 0xCC, 2, 0xC4, 8] @ str ''readFile'' @ [0xC4, 4] @ str ''null'')
          CallbackReadFile" and E=exEnv and path="str ''/local.ts''" and data="str ''null''"
        and ?s1.0="?T"] c1 pre
    by (simp add: bits_eval)
  have w3: "ReadFile exEnv (str ''/local.ts'')
       (exServer ([0x93, 0xCC, 2, 0xC4, 8] @ str ''readFile'' @ [0xC4, 0]) CallbackReadFile)
     = (Returned (str ''local'', True), ?T\<lparr>fsLog := [CallReadFile (str ''/local.ts'')]\<rparr>)"
    using ReadFile_cases [where s=
        "exServer ([0x93, 0xCC, 2, 0xC4, 8] @ str ''readFile'' @ [0xC4, 0]) CallbackReadFile"
        and E=exEnv and path="str ''/local.ts''" and data="[]" and ?s1.0="?T"] c2 loc pre
    by (simp add: bits_eval)
  from w0 w1 w2 w3 show ?thesis by simp
qed

text \<open>
  C7, as stated, fails: the reply \<^verbatim>\<open>null\<close> is not empty, unmarshals into
  \<^verbatim>\<open>rawEntries\<close> as the nil pointer, and the test \<^verbatim>\<open>rawEntries != nil\<close> sends
  \<^verbatim>\<open>GetAccessibleEntries\<close> on to the local filesystem, whose answer it returns.
\<close>

theorem GetAccessibleEntries_null_counterexample:
  "jsonUnmarshalEntries exEnv (str ''null'') = Inr None \<and>
   GetAccessibleEntries exEnv (str ''/dir'')
       (exServer ([0x93, 0xCC, 2, 0xC4, 20] @ str ''getAccessibleEntries'' @ [0xC4, 4] @ str ''null'')
          CallbackGetAccessibleEntries)
     = (Returned (fsGetAccessibleEntries exFS (str ''/dir'')),
        (exServer [] CallbackGetAccessibleEntries)
          \<lparr>w_sent := envelopeBytes MessageTypeCall (str ''getAccessibleEntries'')
                       ([0x22] @ str ''/dir'' @ [0x22]),
           fsLog := [CallGetAccessibleEntries (str ''/dir'')]\<rparr>)"
proof -
  have l: "length (str ''getAccessibleEntries'') < 100" "length (str ''null'') < 100"
    by (simp_all add: str_def)
  have n: "jsonUnmarshalEntries exEnv (str ''null'') = Inr None"
    by (simp add: exEnv_def)
  have ne: "str ''null'' \<noteq> []"
    by (simp add: str_def)
  note c = exCall [OF exReply(6) l(1) l(2), of "str ''/dir''" CallbackGetAccessibleEntries]
  show ?thesis
    apply (simp only: GetAccessibleEntries_def c)
    apply (simp add: localGetAccessibleEntries_def n ne bits_eval)
    done
qed

theorem GetAccessibleEntries_cases_witness:
  \<open>GetAccessibleEntries exEnv (str ''/dir'') (exServer [] 0)
     = (Returned \<lparr>Files = [str ''local.ts''], Directories = []\<rparr>,
        (exServer [] 0)\<lparr>fsLog := [CallGetAccessibleEntries (str ''/dir'')]\<rparr>) \<and>
   GetAccessibleEntries exEnv (str ''/dir'')
       (exServer ([0x93, 0xCC, 2, 0xC4, 20] @ str ''getAccessibleEntries'' @ [0xC4, 0])
          CallbackGetAccessibleEntries)
     = (Returned \<lparr>Files = [str ''local.ts''], Directories = []\<rparr>,
        (exServer [] CallbackGetAccessibleEntries)
          \<lparr>w_sent := envelopeBytes MessageTypeCall (str ''getAccessibleEntries'')
                       ([0x22] @ str ''/dir'' @ [0x22]),
           fsLog := [CallGetAccessibleEntries (str ''/dir'')]\<rparr>) \<and>
   GetAccessibleEntries exEnv (str ''/dir'')
       (exServer (envelopeBytes MessageTypeCallResponse (str ''getAccessibleEntries'')
                    (str ''{"files":["remote.ts"],"directories":[]}''))
          CallbackGetAccessibleEntries)
     = (Returned \<lparr>Files = [str ''remote.ts''], Directories = []\<rparr>,
        (exServer [] CallbackGetAccessibleEntries)
          \<lparr>w_sent := envelopeBytes MessageTypeCall (str ''getAccessibleEntries'')
                       ([0x22] @ str ''/dir'' @ [0x22])\<rparr>)\<close>
proof -
  have l: \<open>length (str ''getAccessibleEntries'') < 100\<close>
    \<open>length (str ''{"files":["remote.ts"],"directories":[]}'') < 100\<close>
    by (simp_all add: str_def)
  have u: \<open>jsonUnmarshalEntries exEnv (str ''{"files":["remote.ts"],"directories":[]}'')
      = Inr (Some \<lparr>Files = [str ''remote.ts''], Directories = []\<rparr>)\<close>
    \<open>str ''{"files":["remote.ts"],"directories":[]}'' \<noteq> []\<close>
    by (simp_all add: exEnv_def str_def)
  have loc: "fsGetAccessibleEntries exFS (str ''/dir'') = \<lparr>Files = [str ''local.ts''], Directories = []\<rparr>"
    by (simp add: exFS_def)
  note c1 = exCall [OF exReply(7) l(1), of "str ''/dir''" CallbackGetAccessibleEntries]
  note c2 = exCall [OF refl l(1) l(2), of "str ''/dir''" CallbackGetAccessibleEntries]
  let ?T = "(exServer [] CallbackGetAccessibleEntries)
          \<lparr>w_sent := envelopeBytes MessageTypeCall (str ''getAccessibleEntries'')
                       ([0x22] @ str ''/dir'' @ [0x22])\<rparr>"
  have w0: "GetAccessibleEntries exEnv (str ''/dir'') (exServer [] 0)
     = (Returned \<lparr>Files = [str ''local.ts''], Directories = []\<rparr>,
        (exServer [] 0)\<lparr>fsLog := [CallGetAccessibleEntries (str ''/dir'')]\<rparr>)"
    using GetAccessibleEntries_cases [where s="exServer [] 0" and E=exEnv and path="str ''/dir''"
        and result="[]" and ?s1.0="exServer [] 0"
        and rawEntries="\<lparr>Files = [], Directories = []\<rparr>"] loc
    by simp
  have w1: "GetAccessibleEntries exEnv (str ''/dir'')
       (exServer ([0x93, 0xCC, 2, 0xC4, 20] @ str ''getAccessibleEntries'' @ [0xC4, 0])
          CallbackGetAccessibleEntries)
     = (Returned \<lparr>Files = [str ''local.ts''], Directories = []\<rparr>,
        ?T\<lparr>fsLog := [CallGetAccessibleEntries (str ''/dir'')]\<rparr>)"
    using GetAccessibleEntries_cases [where s=
        "exServer ([0x93, 0xCC, 2, 0xC4, 20] @ str ''getAccessibleEntries'' @ [0xC4, 0])
          CallbackGetAccessibleEntries" and E=exEnv and path="str ''/dir''"
        and result="[]" and ?s1.0="?T"
        and rawEntries="\<lparr>Files = [], Directories = []\<rparr>"] loc c1
    by (simp add: bits_eval)
  have w2: \<open>GetAccessibleEntries exEnv (str ''/dir'')
       (exServer (envelopeBytes MessageTypeCallResponse (str ''getAccessibleEntries'')
                    (str ''{"files":["remote.ts"],"directories":[]}''))
          CallbackGetAccessibleEntries)
     = (Returned \<lparr>Files = [str ''remote.ts''], Directories = []\<rparr>, ?T)\<close>
    using GetAccessibleEntries_cases [where s=
        \<open>exServer (envelopeBytes MessageTypeCallResponse (str ''getAccessibleEntries'')
                    (str ''{"files":["remote.ts"],"directories":[]}''))
          CallbackGetAccessibleEntries\<close> and E=exEnv and path="str ''/dir''"
        and result=\<open>str ''{"files":["remote.ts"],"directories":[]}''\<close> and ?s1.0="?T"
        and rawEntries="\<lparr>Files = [str ''remote.ts''], Directories = []\<rparr>"] c2 u
    by (simp add: bits_eval)
  from w0 w1 w2 show ?thesis by simp
qed

section \<open>Properties of the capability registry\<close>

lemma or_and_nonzero: "a AND x \<noteq> 0 \<Longrightarrow> (a OR b) AND x \<noteq> (0::int)"
  by (simp add: bit.conj_disj_distrib2 or_eq_0_iff)

lemma maskGrows_refl [simp]: "maskGrows s s"
  unfolding maskGrows_def by (rule exI [of _ 0]) simp

lemma maskGrows_trans: "maskGrows s t \<Longrightarrow> maskGrows t u \<Longrightarrow> maskGrows s u"
  unfolding maskGrows_def by (metis or.assoc)

lemma maskGrows_same: "enabledCallbacks s' = enabledCallbacks s \<Longrightarrow> maskGrows s s'"
  unfolding maskGrows_def by (rule exI [of _ 0]) simp

lemma maskGrows_ioOnly: "ioOnly s s' \<Longrightarrow> maskGrows s s'"
  by (simp add: ioOnly_def maskGrows_same)

lemma maskGrows_enabled: "maskGrows s s' \<Longrightarrow> CallbackEnabled s X \<Longrightarrow> CallbackEnabled s' X"
  unfolding maskGrows_def CallbackEnabled_def by (auto simp: or_and_nonzero)

lemma enableCallback_bit:
  "enableCallback c s =
     (case callbackBit c of
        None \<Rightarrow> (Some (UnknownCallback c), s)
      | Some b \<Rightarrow> (None, s\<lparr>enabledCallbacks := enabledCallbacks s OR b\<rparr>))"
  by (simp add: enableCallback_def callbackBit_def)

lemma enableCallback_grows: "maskGrows s (snd (enableCallback c s))"
proof (cases "callbackBit c")
  case None
  then show ?thesis by (simp add: enableCallback_bit)
next
  case (Some b)
  then show ?thesis by (auto simp: enableCallback_bit maskGrows_def)
qed

lemma enableCallbacks_grows: "maskGrows s (snd (enableCallbacks cs s))"
proof (induction cs arbitrary: s)
  case Nil
  show ?case by simp
next
  case (Cons c cs)
  show ?case
  proof (cases "enableCallback c s")
    case (Pair r s1)
    with enableCallback_grows [of s c] have g: "maskGrows s s1" by simp
    show ?thesis
    proof (cases r)
      case None
      with Pair Cons.IH [of s1] g show ?thesis
        by (auto intro: maskGrows_trans)
    next
      case (Some e)
      with Pair g show ?thesis by simp
    qed
  qed
qed

lemma handleConfigure_grows: "maskGrows s (snd (handleConfigure E payload s))"
proof (cases "jsonUnmarshalConfigureParams E payload")
  case (Inl e)
  then show ?thesis by (simp add: handleConfigure_def)
next
  case (Inr p)
  show ?thesis
  proof (cases p)
    case None
    with Inr show ?thesis by (simp add: handleConfigure_def)
  next
    case (Some params)
    with Inr enableCallbacks_grows [of s "Callbacks params"] show ?thesis
      by (auto simp: handleConfigure_def split: prod.splits option.splits)
  qed
qed

lemma configure_all_grows:
  "maskGrows s (fold (\<lambda>payload t. snd (handleConfigure E payload t)) payloads s)"
proof (induction payloads arbitrary: s)
  case Nil
  show ?case by simp
next
  case (Cons p ps)
  from handleConfigure_grows [of s E p] Cons.IH [of "snd (handleConfigure E p s)"]
  show ?case by (auto intro: maskGrows_trans)
qed

lemma enableCallback_twice:
  "snd (enableCallback c (snd (enableCallback c s))) = snd (enableCallback c s)"
  by (auto simp: enableCallback_bit or.assoc split: option.splits)

lemma local_mask:
  "enabledCallbacks (snd (localDirectoryExists path s)) = enabledCallbacks s"
  "enabledCallbacks (snd (localFileExists path s)) = enabledCallbacks s"
  "enabledCallbacks (snd (localGetAccessibleEntries path s)) = enabledCallbacks s"
  "enabledCallbacks (snd (localReadFile path s)) = enabledCallbacks s"
  "enabledCallbacks (snd (localRealpath path s)) = enabledCallbacks s"
  by (simp_all add: localDirectoryExists_def localFileExists_def localGetAccessibleEntries_def
        localReadFile_def localRealpath_def)

lemma call_mask: "enabledCallbacks (snd (call marshal m p s)) = enabledCallbacks s"
  using call_io [of marshal m p s "fst (call marshal m p s)" "snd (call marshal m p s)"]
  by (simp add: ioOnly_def)

lemma call_mask': "call marshal m p s = (r, s1) \<Longrightarrow> enabledCallbacks s1 = enabledCallbacks s"
  using call_mask [of marshal m p s] by simp

lemma adapter_mask:
  "enabledCallbacks (snd (DirectoryExists E path s)) = enabledCallbacks s"
  "enabledCallbacks (snd (FileExists E path s)) = enabledCallbacks s"
  "enabledCallbacks (snd (GetAccessibleEntries E path s)) = enabledCallbacks s"
  "enabledCallbacks (snd (ReadFile E path s)) = enabledCallbacks s"
  "enabledCallbacks (snd (Realpath E path s)) = enabledCallbacks s"
  by (auto simp: DirectoryExists_def FileExists_def GetAccessibleEntries_def ReadFile_def
        Realpath_def local_mask
        split: prod.splits sum.splits option.splits dest: call_mask')


lemma sendError_io: "sendError E m e s = (r, s') \<Longrightarrow> ioOnly s s'"
  unfolding sendError_def by (rule writeMessage_io)

lemma sendResponse_io: "sendResponse m p s = (r, s') \<Longrightarrow> ioOnly s s'"
  unfolding sendResponse_def by (rule writeMessage_io)

lemma runDeferred_io: "runDeferred E ds p s = (p', s') \<Longrightarrow> ioOnly s s'"
proof (induction ds arbitrary: p s)
  case Nil
  then show ?case by simp
next
  case (Cons m ds)
  show ?case
  proof (cases p)
    case None
    with Cons show ?thesis by simp
  next
    case (Some r)
    obtain e s1 where se: "sendError E m (PanicHandlingRequest r (debugStack E)) s = (e, s1)"
      by (cases "sendError E m (PanicHandlingRequest r (debugStack E)) s")
    then have io: "ioOnly s s1" by (rule sendError_io)
    from Cons.prems Some se have "\<exists>q. runDeferred E ds q s1 = (p', s')"
      by (cases e) auto
    then obtain q where "runDeferred E ds q s1 = (p', s')" ..
    then have "ioOnly s1 s'" by (rule Cons.IH)
    with io show ?thesis by (rule ioOnly_trans)
  qed
qed

lemma runDeferred_None: "runDeferred E ds None s = (None, s)"
  by (induction ds) simp_all

lemma leaveReturn_eq: "leaveReturn E ds err s = (Returned err, s)"
  by (simp add: leaveReturn_def runDeferred_None)

lemma leavePanic_io: "leavePanic E ds r s = (x, s') \<Longrightarrow> ioOnly s s'"
  unfolding leavePanic_def
  by (auto split: prod.splits option.splits dest: runDeferred_io)

lemma handleRequest_grows:
  assumes "\<And>i m p t. maskGrows t (snd (apiHandleRequest E i m p t))"
  shows "maskGrows s (snd (handleRequest E method payload s))"
proof -
  let ?s1 = "s\<lparr>requestId := requestId s + 1\<rparr>"
  have g1: "maskGrows s ?s1" by (simp add: maskGrows_same)
  have "maskGrows ?s1 (snd (handleRequest E method payload s))"
    using handleConfigure_grows [of ?s1 E payload] assms [of ?s1 "requestId ?s1" "method" payload]
    by (auto simp: handleRequest_def Let_def split: prod.splits outcome.splits)
  with g1 show ?thesis by (rule maskGrows_trans)
qed

lemma RunLoop_grows:
  assumes api: "\<And>i m p t. maskGrows t (snd (apiHandleRequest E i m p t))"
  shows "RunLoop fuel E ds s = Some (r, s') \<Longrightarrow> maskGrows s s'"
proof (induction fuel arbitrary: ds s)
  case 0
  then show ?case by simp
next
  case (Suc fuel)
  obtain rr s1 where rd: "readRequest [] s = (rr, s1)" by (cases "readRequest [] s")
  then have g1: "maskGrows s s1" by (auto dest: readRequest_io maskGrows_ioOnly)
  show ?case
  proof (cases rr)
    case (Inl e)
    with Suc.prems rd have "s' = s1" by (simp add: leaveReturn_eq)
    with g1 show ?thesis by simp
  next
    case (Inr req)
    obtain k meth payload where req: "req = (k, meth, payload)" by (cases req)
    show ?thesis
    proof (cases "k = MessageTypeRequest")
      case False
      with Suc.prems rd Inr req have "s' = s1" by (simp add: leaveReturn_eq)
      with g1 show ?thesis by simp
    next
      case True
      obtain h s2 where hr: "handleRequest E meth payload s1 = (h, s2)"
        by (cases "handleRequest E meth payload s1")
      with handleRequest_grows [OF api, of s1 meth payload] have g2: "maskGrows s1 s2" by simp
      from g1 g2 have g: "maskGrows s s2" by (rule maskGrows_trans)
      show ?thesis
      proof (cases h)
        case (Panicked pv)
        with Suc.prems rd Inr req True hr have "leavePanic E (meth # ds) pv s2 = (r, s')"
          by simp
        then have "maskGrows s2 s'" by (auto dest: leavePanic_io maskGrows_ioOnly)
        with g show ?thesis by (rule maskGrows_trans)
      next
        case (Returned res)
        obtain result err where res: "res = (result, err)" by (cases res)
        obtain w s3 where wr:
          "(case err of Some e \<Rightarrow> sendError E meth e s2 | None \<Rightarrow> sendResponse meth result s2)
             = (w, s3)"
          by (cases "case err of Some e \<Rightarrow> sendError E meth e s2
                               | None \<Rightarrow> sendResponse meth result s2")
        then have "ioOnly s2 s3"
          by (cases err) (auto dest: sendError_io sendResponse_io)
        then have "maskGrows s2 s3" by (rule maskGrows_ioOnly)
        with g have g3: "maskGrows s s3" by (rule maskGrows_trans)
        show ?thesis
        proof (cases w)
          case (Inl e)
          with Suc.prems rd Inr req True hr Returned res wr have "s' = s3"
            by (cases err) (simp_all add: leaveReturn_eq)
          with g3 show ?thesis by simp
        next
          case (Inr u)
          with Suc.prems rd \<open>rr = Inr req\<close> req True hr Returned res wr
          have "RunLoop fuel E (meth # ds) s3 = Some (r, s')"
            by (cases err) simp_all
          then have "maskGrows s3 s'" by (rule Suc.IH)
          with g3 show ?thesis by (rule maskGrows_trans)
        qed
      qed
    qed
  qed
qed


text \<open>
  C8. The capability mask only grows. \<^verbatim>\<open>enableCallback\<close> and \<^verbatim>\<open>handleConfigure\<close> leave
  a mask that is the old one with bits ORed in, whatever they return; reading and
  writing envelopes, \<^verbatim>\<open>call\<close> and the five filesystem adapters leave the mask as
  it is; and \<^verbatim>\<open>Run\<close> as a whole only ORs bits in, provided the request handlers
  behind \<^verbatim>\<open>s.api\<close> do. A mask that has grown keeps every capability enabled: once
  \<^verbatim>\<open>CallbackEnabled(X)\<close> holds, it holds after any sequence of configuration
  requests. Enabling the same capability twice gives the state that enabling it
  once gives.
\<close>

theorem enabledCallbacks_monotonic:
  "maskGrows s (snd (enableCallback c s)) \<and>
   maskGrows s (snd (handleConfigure E payload s)) \<and>
   enabledCallbacks (snd (readRequest e s)) = enabledCallbacks s \<and>
   enabledCallbacks (snd (writeMessage k m p s)) = enabledCallbacks s \<and>
   enabledCallbacks (snd (call marshal m q s)) = enabledCallbacks s \<and>
   enabledCallbacks (snd (DirectoryExists E path s)) = enabledCallbacks s \<and>
   enabledCallbacks (snd (FileExists E path s)) = enabledCallbacks s \<and>
   enabledCallbacks (snd (GetAccessibleEntries E path s)) = enabledCallbacks s \<and>
   enabledCallbacks (snd (ReadFile E path s)) = enabledCallbacks s \<and>
   enabledCallbacks (snd (Realpath E path s)) = enabledCallbacks s \<and>
   ((\<forall>i m p t. maskGrows t (snd (apiHandleRequest E i m p t))) \<and>
    Run fuel E s = Some (r, s') \<longrightarrow> maskGrows s s') \<and>
   (maskGrows s s' \<and> CallbackEnabled s X \<longrightarrow> CallbackEnabled s' X) \<and>
   (CallbackEnabled s X \<longrightarrow>
      CallbackEnabled (fold (\<lambda>payload t. snd (handleConfigure E payload t)) payloads s) X) \<and>
   snd (enableCallback c (snd (enableCallback c s))) = snd (enableCallback c s)"
proof -
  have rd: "enabledCallbacks (snd (readRequest e s)) = enabledCallbacks s"
    using readRequest_io [of e s "fst (readRequest e s)" "snd (readRequest e s)"]
    by (simp add: ioOnly_def)
  have wr: "enabledCallbacks (snd (writeMessage k m p s)) = enabledCallbacks s"
    using writeMessage_io [of k m p s "fst (writeMessage k m p s)" "snd (writeMessage k m p s)"]
    by (simp add: ioOnly_def)
  have run: "(\<forall>i m p t. maskGrows t (snd (apiHandleRequest E i m p t))) \<and>
    Run fuel E s = Some (r, s') \<longrightarrow> maskGrows s s'"
    unfolding Run_def using RunLoop_grows [of E fuel "[]" s r s'] by blast
  have en: "maskGrows s s' \<and> CallbackEnabled s X \<longrightarrow> CallbackEnabled s' X"
    by (auto intro: maskGrows_enabled)
  have cfg: "CallbackEnabled s X \<longrightarrow>
      CallbackEnabled (fold (\<lambda>payload t. snd (handleConfigure E payload t)) payloads s) X"
    using configure_all_grows [of s E payloads] by (auto intro: maskGrows_enabled)
  show ?thesis
    by (intro conjI enableCallback_grows handleConfigure_grows rd wr call_mask adapter_mask
          run en cfg enableCallback_twice)
qed

theorem enabledCallbacks_monotonic_witness:
  \<open>CallbackEnabled (exServer [] CallbackReadFile) CallbackReadFile \<and>
   Run 1 exEnv (exServer [] CallbackReadFile)
     = Some (Returned (Some EOF), exServer [] CallbackReadFile) \<and>
   CallbackEnabled
     (fold (\<lambda>payload t. snd (handleConfigure exEnv payload t))
        [str ''{"callbacks":["fileExists"]}'', str ''null'', str ''{"callbacks":["fileExists"]}'']
        (exServer [] CallbackReadFile))
     CallbackReadFile \<and>
   fold (\<lambda>payload t. snd (handleConfigure exEnv payload t))
        [str ''{"callbacks":["fileExists"]}'', str ''null'', str ''{"callbacks":["fileExists"]}'']
        (exServer [] CallbackReadFile)
     = exServer [] (CallbackReadFile OR CallbackFileExists)\<close>
proof -
  have en: "CallbackEnabled (exServer [] CallbackReadFile) CallbackReadFile"
    by (simp add: CallbackEnabled_def CallbackReadFile_def)
  have api: "\<forall>i m p t. maskGrows t (snd (apiHandleRequest exEnv i m p t))"
    by (simp add: exEnv_def)
  have run: "Run 1 exEnv (exServer [] CallbackReadFile)
      = Some (Returned (Some EOF), exServer [] CallbackReadFile)"
    by (simp add: Run_def readRequest_def ReadByte_def leaveReturn_eq)
  have f: \<open>fold (\<lambda>payload t. snd (handleConfigure exEnv payload t))
        [str ''{"callbacks":["fileExists"]}'', str ''null'', str ''{"callbacks":["fileExists"]}'']
        (exServer [] CallbackReadFile)
     = exServer [] (CallbackReadFile OR CallbackFileExists)\<close>
    by (simp add: handleConfigure_def exEnv_def enableCallback_bit callbackBit_def str_def
          exServer_def or.assoc)
  from enabledCallbacks_monotonic [where s="exServer [] CallbackReadFile" and X=CallbackReadFile
      and E=exEnv and s'="exServer [] CallbackReadFile" and c="[]" and payload="[]" and e="[]"
      and k=0 and m="[]" and p="[]" and marshal=Inr and q="[]" and path="[]" and fuel=1
      and r="Returned (Some EOF)"
      and payloads=\<open>[str ''{"callbacks":["fileExists"]}'', str ''null'',
                     str ''{"callbacks":["fileExists"]}'']\<close>] en api run f
  show ?thesis by simp
qed

lemma enableCallbacks_unknown:
  assumes "\<forall>c\<in>set pre. callbackBit c \<noteq> None" and "callbackBit u = None"
  shows "enableCallbacks (pre @ u # post) s =
           (Some (UnknownCallback u),
            s\<lparr>enabledCallbacks := fold (\<lambda>c mask. mask OR the (callbackBit c)) pre (enabledCallbacks s)\<rparr>)"
  using assms(1)
proof (induction pre arbitrary: s)
  case Nil
  show ?case by (simp add: enableCallback_bit assms(2))
next
  case (Cons c cs)
  then obtain b where b: "callbackBit c = Some b" by auto
  from Cons.prems have "\<forall>c\<in>set cs. callbackBit c \<noteq> None" by simp
  from Cons.IH [OF this, of "s\<lparr>enabledCallbacks := enabledCallbacks s OR b\<rparr>"] b
  show ?case by (simp add: enableCallback_bit)
qed

text \<open>Each capability is a single bit, so ORing it in twice changes nothing.\<close>

lemma callbackBit_values:
  "callbackBit c = Some b \<Longrightarrow> b \<in> {1, 2, 4, 8, 16, 32, 64, 128, 256}"
  unfolding callbackBit_def CallbackDirectoryExists_def CallbackFileExists_def
    CallbackGetAccessibleEntries_def CallbackReadFile_def CallbackRealpath_def
    CallbackResolveModuleName_def CallbackResolveTypeReferenceDirective_def
    CallbackGetPackageJsonScopeIfApplicable_def CallbackGetPackageScopeForPath_def
  by (auto split: if_splits)

lemma callbackBit_single: "callbackBit c = Some b \<Longrightarrow> \<exists>n. b = 2 ^ n"
proof -
  assume "callbackBit c = Some b"
  then have "b \<in> {1, 2, 4, 8, 16, 32, 64, 128, 256}" by (rule callbackBit_values)
  moreover have "(1::int) = 2 ^ 0" "(2::int) = 2 ^ 1" "(4::int) = 2 ^ 2" "(8::int) = 2 ^ 3"
    "(16::int) = 2 ^ 4" "(32::int) = 2 ^ 5" "(64::int) = 2 ^ 6" "(128::int) = 2 ^ 7"
    "(256::int) = 2 ^ 8"
    by simp_all
  ultimately show ?thesis by blast
qed

lemma and_single_bit: "(m::int) AND 2 ^ n \<noteq> 0 \<longleftrightarrow> bit m n"
  by (simp add: and_exp_eq_0_iff_not_bit)

lemma or_single_bit_idem: "bit (m::int) n \<Longrightarrow> m OR 2 ^ n = m"
  by (rule bit_eqI) (auto simp: bit_simps)

lemma bit_or_single: "bit ((m::int) OR 2 ^ n) k \<longleftrightarrow> bit m k \<or> k = n"
  by (auto simp: bit_simps)

lemma fold_or_keeps_bit:
  "\<forall>c\<in>set pre. callbackBit c \<noteq> None \<Longrightarrow> bit (m::int) k
     \<Longrightarrow> bit (fold (\<lambda>c mask. mask OR the (callbackBit c)) pre m) k"
proof (induction pre arbitrary: m)
  case Nil
  then show ?case by simp
next
  case (Cons c cs)
  then obtain b where b: "callbackBit c = Some b" by auto
  then obtain n where n: "b = 2 ^ n" by (auto dest: callbackBit_single)
  from Cons.prems(2) have "bit (m OR the (callbackBit c)) k"
    by (simp add: b n bit_or_single)
  with Cons.IH [of "m OR the (callbackBit c)"] Cons.prems(1) show ?case by simp
qed

lemma fold_or_sets_bits:
  "\<forall>c\<in>set pre. callbackBit c \<noteq> None \<Longrightarrow> c \<in> set pre
     \<Longrightarrow> fold (\<lambda>c mask. mask OR the (callbackBit c)) pre m AND the (callbackBit c) \<noteq> (0::int)"
proof (induction pre arbitrary: m)
  case Nil
  then show ?case by simp
next
  case (Cons d ds)
  from Cons.prems(1) have rest: "\<forall>c\<in>set ds. callbackBit c \<noteq> None" by simp
  show ?case
  proof (cases "c = d")
    case True
    from Cons.prems(1) obtain b where b: "callbackBit d = Some b" by auto
    then obtain n where n: "b = 2 ^ n" by (auto dest: callbackBit_single)
    have "bit (m OR the (callbackBit d)) n" by (simp add: b n bit_or_single)
    then have "bit (fold (\<lambda>c mask. mask OR the (callbackBit c)) ds (m OR the (callbackBit d))) n"
      by (rule fold_or_keeps_bit [OF rest])
    with True b n show ?thesis by (simp add: and_single_bit)
  next
    case False
    with Cons.prems(2) have "c \<in> set ds" by simp
    from Cons.IH [OF rest this, of "m OR the (callbackBit d)"] show ?thesis by simp
  qed
qed

lemma fold_or_unchanged:
  "\<forall>c\<in>set pre. callbackBit c \<noteq> None \<Longrightarrow> \<forall>c\<in>set pre. m AND the (callbackBit c) \<noteq> (0::int)
     \<Longrightarrow> fold (\<lambda>c mask. mask OR the (callbackBit c)) pre m = m"
proof (induction pre)
  case Nil
  show ?case by simp
next
  case (Cons d ds)
  from Cons.prems(1) obtain b where b: "callbackBit d = Some b" by auto
  then obtain n where n: "b = 2 ^ n" by (auto dest: callbackBit_single)
  from Cons.prems(2) b n have "m OR the (callbackBit d) = m"
    by (simp add: and_single_bit or_single_bit_idem)
  with Cons show ?case by simp
qed

text \<open>
  C2, amended. When the callback list of a configuration request has an
  unrecognized name, \<^verbatim>\<open>handleConfigure\<close> returns the error for the first such name.
  The mask afterwards is the mask before with the bits of the recognized names
  listed before that name ORed in, so each of these capabilities is enabled
  afterwards; the names after it are not looked at, and nothing else of the server
  changes. The server is left exactly as it was if and only if every recognized
  name listed before the first unrecognized one was enabled already, as is the
  case when there is none.
\<close>

theorem handleConfigure_unknown:
  assumes "jsonUnmarshalConfigureParams E payload = Inr (Some params)"
    and "Callbacks params = pre @ u # post"
    and "\<forall>c\<in>set pre. callbackBit c \<noteq> None" and "callbackBit u = None"
  shows "handleConfigure E payload s =
           (Returned (Some (UnknownCallback u)),
            s\<lparr>enabledCallbacks := fold (\<lambda>c mask. mask OR the (callbackBit c)) pre (enabledCallbacks s)\<rparr>) \<and>
         (\<forall>c\<in>set pre. CallbackEnabled (snd (handleConfigure E payload s)) (the (callbackBit c))) \<and>
         (snd (handleConfigure E payload s) = s \<longleftrightarrow>
            (\<forall>c\<in>set pre. CallbackEnabled s (the (callbackBit c))))"
proof -
  let ?r = "fold (\<lambda>c mask. mask OR the (callbackBit c)) pre (enabledCallbacks s)"
  have h: "handleConfigure E payload s
      = (Returned (Some (UnknownCallback u)), s\<lparr>enabledCallbacks := ?r\<rparr>)"
    using assms(1,2) enableCallbacks_unknown [OF assms(3,4), of post s]
    by (simp add: handleConfigure_def)
  have en: "\<forall>c\<in>set pre. ?r AND the (callbackBit c) \<noteq> 0"
    using fold_or_sets_bits [OF assms(3)] by blast
  have same: "s\<lparr>enabledCallbacks := ?r\<rparr> = s \<longleftrightarrow> ?r = enabledCallbacks s"
  proof
    assume "s\<lparr>enabledCallbacks := ?r\<rparr> = s"
    then have "enabledCallbacks (s\<lparr>enabledCallbacks := ?r\<rparr>) = enabledCallbacks s" by simp
    then show "?r = enabledCallbacks s" by simp
  next
    assume "?r = enabledCallbacks s"
    then show "s\<lparr>enabledCallbacks := ?r\<rparr> = s" by simp
  qed
  have iff: "?r = enabledCallbacks s \<longleftrightarrow> (\<forall>c\<in>set pre. enabledCallbacks s AND the (callbackBit c) \<noteq> 0)"
  proof
    assume "?r = enabledCallbacks s"
    with en show "\<forall>c\<in>set pre. enabledCallbacks s AND the (callbackBit c) \<noteq> 0" by simp
  next
    assume "\<forall>c\<in>set pre. enabledCallbacks s AND the (callbackBit c) \<noteq> 0"
    then show "?r = enabledCallbacks s" by (rule fold_or_unchanged [OF assms(3)])
  qed
  show ?thesis
    using en same iff by (simp add: h CallbackEnabled_def)
qed

theorem handleConfigure_unknown_witness:
  \<open>handleConfigure exEnv (str ''{"callbacks":["readFile","bogus","fileExists"]}'') (exServer [] 0)
     = (Returned (Some (UnknownCallback (str ''bogus''))), exServer [] CallbackReadFile) \<and>
   CallbackEnabled (exServer [] CallbackReadFile) CallbackReadFile \<and>
   handleConfigure exEnv (str ''{"callbacks":["readFile","bogus","fileExists"]}'')
       (exServer [] CallbackReadFile)
     = (Returned (Some (UnknownCallback (str ''bogus''))), exServer [] CallbackReadFile)\<close>
proof -
  have p: \<open>jsonUnmarshalConfigureParams exEnv (str ''{"callbacks":["readFile","bogus","fileExists"]}'')
      = Inr (Some \<lparr>Callbacks = [str ''readFile'', str ''bogus'', str ''fileExists''], LogFile = []\<rparr>)\<close>
    by (simp add: exEnv_def str_def)
  have c: "Callbacks \<lparr>Callbacks = [str ''readFile'', str ''bogus'', str ''fileExists''], LogFile = []\<rparr>
      = [str ''readFile''] @ str ''bogus'' # [str ''fileExists'']"
    by simp
  have k: "\<forall>c\<in>set [str ''readFile'']. callbackBit c \<noteq> None" "callbackBit (str ''bogus'') = None"
    "the (callbackBit (str ''readFile'')) = CallbackReadFile"
    by (simp_all add: callbackBit_def str_def)
  have en: "CallbackEnabled (exServer [] CallbackReadFile) CallbackReadFile"
    by (simp add: CallbackEnabled_def CallbackReadFile_def)
  have w1: \<open>handleConfigure exEnv (str ''{"callbacks":["readFile","bogus","fileExists"]}'') (exServer [] 0)
     = (Returned (Some (UnknownCallback (str ''bogus''))), exServer [] CallbackReadFile)\<close>
    using handleConfigure_unknown [OF p c k(1,2), of "exServer [] 0"] k(3)
    by (simp add: exServer_def)
  have w2: \<open>handleConfigure exEnv (str ''{"callbacks":["readFile","bogus","fileExists"]}'')
       (exServer [] CallbackReadFile)
     = (Returned (Some (UnknownCallback (str ''bogus''))), exServer [] CallbackReadFile)\<close>
    using handleConfigure_unknown [OF p c k(1,2), of "exServer [] CallbackReadFile"] k(3)
    by (simp add: exServer_def)
  from w1 en w2 show ?thesis by simp
qed

text \<open>
  C2, as stated, fails: the callbacks are enabled one by one and the loop returns at
  the first unknown name, with no undoing. For \<^verbatim>\<open>["readFile","bogus","fileExists"]\<close>
  the error comes back and \<^verbatim>\<open>readFile\<close>, disabled before, is enabled after.
\<close>

theorem handleConfigure_unknown_counterexample:
  \<open>handleConfigure exEnv (str ''{"callbacks":["readFile","bogus","fileExists"]}'') (exServer [] 0)
     = (Returned (Some (UnknownCallback (str ''bogus''))), exServer [] CallbackReadFile) \<and>
   \<not> CallbackEnabled (exServer [] 0) CallbackReadFile \<and>
   CallbackEnabled (exServer [] CallbackReadFile) CallbackReadFile\<close>
  by (simp add: handleConfigure_def exEnv_def enableCallback_bit callbackBit_def str_def
        exServer_def CallbackEnabled_def CallbackReadFile_def)

section \<open>Properties of the dispatcher\<close>

text \<open>
  What \<^verbatim>\<open>Run\<close> does when the handler of a Request panics, whatever was deferred
  before: the deferred function of this iteration recovers the panic and sends the
  Error envelope with the panic value and the stack, the older ones find nothing to
  recover, and \<^verbatim>\<open>Run\<close> returns \<^verbatim>\<open>nil\<close>. The input that follows is left unread.
\<close>

lemma RunLoop_panic:
  assumes "readRequest [] s = (Inr (MessageTypeRequest, method, payload), s1)"
    and "handleRequest E method payload s1 = (Panicked r, s2)"
    and "\<not> w_err s2" and "\<not> w_broken s2"
  shows "RunLoop (Suc fuel) E ds s =
           Some (Returned None,
                 s2\<lparr>w_buf := [],
                    w_sent := w_sent s2 @ w_buf s2 @
                      envelopeBytes MessageTypeError method
                        (str ''panic handling request: '' @ fmtValue E r @ [0x0A] @ debugStack E)\<rparr>)"
  using assms
  by (simp add: leavePanic_def sendError_def Error_def writeMessage_ok runDeferred_None)

text \<open>An \<^verbatim>\<open>echo\<close> Request alone on a connection is answered, and \<^verbatim>\<open>Run\<close> ends at the end of the input.\<close>

lemma Run_answers_echo:
  "Run (Suc (Suc fuel)) exEnv
     (exServer ([0x93, 0xCC, 1, 0xC4, 4] @ str ''echo'' @ [0xC4, 5] @ str ''hello'') 0)
   = Some (Returned (Some EOF),
           (exServer [] 0)
             \<lparr>w_sent := [0x93, 0xCC, 4, 0xC4, 4] @ str ''echo'' @ [0xC4, 5] @ str ''hello'',
              requestId := 1\<rparr>)"
proof -
  let ?s = "exServer ([0x93, 0xCC, 1, 0xC4, 4] @ str ''echo'' @ [0xC4, 5] @ str ''hello'') 0"
  have v: "IsValid MessageTypeRequest"
    by (simp add: IsValid_def MessageTypeRequest_def MessageTypeCall_def)
  have i: "r_in ?s = envelopeBytes MessageTypeRequest (str ''echo'') (str ''hello'') @ []"
    by (simp add: envelopeBytes_def binPrefix_def str_def MessagePackTypeFixedArray3_def
          MessagePackTypeU8_def MessagePackTypeBin8_def MessageTypeRequest_def)
  have l: "length (str ''echo'') < 2 ^ 32" "length (str ''hello'') < 2 ^ 32"
    by (simp_all add: str_def)
  have rd: "readRequest [] ?s = (Inr (MessageTypeRequest, str ''echo'', str ''hello''), exServer [] 0)"
    using readRequest_envelope [OF i v l, of "[]"] by simp
  have h: "handleRequest exEnv (str ''echo'') (str ''hello'') (exServer [] 0)
      = (Returned (str ''hello'', None), (exServer [] 0)\<lparr>requestId := 1\<rparr>)"
    by (simp add: handleRequest_def str_def)
  have e: "envelopeBytes MessageTypeResponse (str ''echo'') (str ''hello'')
      = [0x93, 0xCC, 4, 0xC4, 4] @ str ''echo'' @ [0xC4, 5] @ str ''hello''"
    by (simp add: envelopeBytes_def binPrefix_def str_def MessagePackTypeFixedArray3_def
          MessagePackTypeU8_def MessagePackTypeBin8_def MessageTypeResponse_def)
  have w: "sendResponse (str ''echo'') (str ''hello'') ((exServer [] 0)\<lparr>requestId := 1\<rparr>)
      = (Inr (), (exServer [] 0)\<lparr>w_sent := [0x93, 0xCC, 4, 0xC4, 4] @ str ''echo'' @ [0xC4, 5]
                                   @ str ''hello'', requestId := 1\<rparr>)"
    apply (simp only: sendResponse_def e [symmetric])
    apply (subst writeMessage_ok)
      apply (simp_all add: exServer_def)
    done
  have eof: "readRequest [] ((exServer [] 0)\<lparr>w_sent := x, requestId := 1\<rparr>)
      = (Inl EOF, (exServer [] 0)\<lparr>w_sent := x, requestId := 1\<rparr>)" for x
    by (simp add: readRequest_def ReadByte_def)
  show ?thesis
    unfolding Run_def
    apply (subst RunLoop.simps)
    apply (simp only: rd h w prod.case sum.case outcome.case option.case if_True)
    apply (subst RunLoop.simps)
    apply (simp only: eof prod.case sum.case leaveReturn_eq)
    apply simp
    done
qed

text \<open>
  C1, on the code. A \<^verbatim>\<open>configure\<close> Request with payload \<^verbatim>\<open>null\<close> unmarshals to the nil
  \<^verbatim>\<open>*ConfigureParams\<close>, and \<^verbatim>\<open>params.Callbacks\<close> panics. Followed on the same
  connection by an \<^verbatim>\<open>echo\<close> Request, and with any fuel: \<^verbatim>\<open>Run\<close> sends the Error
  envelope for \<^verbatim>\<open>configure\<close> and returns \<^verbatim>\<open>nil\<close>; the \<^verbatim>\<open>echo\<close> Request is still in
  the input, unanswered. The \<^verbatim>\<open>defer\<close> is inside the loop, but a deferred function
  runs when \<^verbatim>\<open>Run\<close> itself is left, so recovering ends the loop.
\<close>

theorem Run_returns_after_panic:
  "Run (Suc fuel) exEnv
     (exServer ([0x93, 0xCC, 1, 0xC4, 9] @ str ''configure'' @ [0xC4, 4] @ str ''null''
                @ [0x93, 0xCC, 1, 0xC4, 4] @ str ''echo'' @ [0xC4, 5] @ str ''hello'') 0)
   = Some (Returned None,
           (exServer ([0x93, 0xCC, 1, 0xC4, 4] @ str ''echo'' @ [0xC4, 5] @ str ''hello'') 0)
             \<lparr>w_sent := [0x93, 0xCC, 5, 0xC4, 9] @ str ''configure'' @ [0xC4, 94]
                  @ str ''panic handling request: runtime error: invalid memory address or nil pointer dereference''
                  @ [0x0A] @ str ''stack'',
              requestId := 1\<rparr>)"
proof -
  let ?echo = "[0x93, 0xCC, 1, 0xC4, 4] @ str ''echo'' @ [0xC4, 5] @ str ''hello''"
  let ?s = "exServer ([0x93, 0xCC, 1, 0xC4, 9] @ str ''configure'' @ [0xC4, 4] @ str ''null''
                @ ?echo) 0"
  have v: "IsValid MessageTypeRequest"
    by (simp add: IsValid_def MessageTypeRequest_def MessageTypeCall_def)
  have i: "r_in ?s = envelopeBytes MessageTypeRequest (str ''configure'') (str ''null'') @ ?echo"
    by (simp add: envelopeBytes_def binPrefix_def str_def MessagePackTypeFixedArray3_def
          MessagePackTypeU8_def MessagePackTypeBin8_def MessageTypeRequest_def)
  have l: "length (str ''configure'') < 2 ^ 32" "length (str ''null'') < 2 ^ 32"
    by (simp_all add: str_def)
  have rd: "readRequest [] ?s
      = (Inr (MessageTypeRequest, str ''configure'', str ''null''), exServer ?echo 0)"
    using readRequest_envelope [OF i v l, of "[]"] by simp
  have h: "handleRequest exEnv (str ''configure'') (str ''null'') (exServer ?echo 0)
      = (Panicked NilDereference, (exServer ?echo 0)\<lparr>requestId := 1\<rparr>)"
    by (simp add: handleRequest_def handleConfigure_def exEnv_def)
  have e: "envelopeBytes MessageTypeError (str ''configure'')
        (str ''panic handling request: '' @ fmtValue exEnv NilDereference @ [0x0A] @ debugStack exEnv)
      = [0x93, 0xCC, 5, 0xC4, 9] @ str ''configure'' @ [0xC4, 94]
          @ str ''panic handling request: runtime error: invalid memory address or nil pointer dereference''
          @ [0x0A] @ str ''stack''"
    by (simp add: envelopeBytes_def binPrefix_def str_def exEnv_def MessagePackTypeFixedArray3_def
          MessagePackTypeU8_def MessagePackTypeBin8_def MessageTypeError_def)
  have "Run (Suc fuel) exEnv ?s =
      Some (Returned None,
        ((exServer ?echo 0)\<lparr>requestId := 1\<rparr>)\<lparr>w_buf := [],
           w_sent := w_sent ((exServer ?echo 0)\<lparr>requestId := 1\<rparr>)
             @ w_buf ((exServer ?echo 0)\<lparr>requestId := 1\<rparr>)
             @ envelopeBytes MessageTypeError (str ''configure'')
                 (str ''panic handling request: '' @ fmtValue exEnv NilDereference @ [0x0A]
                    @ debugStack exEnv)\<rparr>)"
    unfolding Run_def by (rule RunLoop_panic [OF rd h]) simp_all
  then show ?thesis
    apply (simp only: e)
    apply (simp add: exServer_def)
    done
qed

section \<open>Properties of the diagnostics maps\<close>

declare addDiagnostic.simps [simp del]

text \<open>An entry of the reverse map is never overwritten: the recursion only adds keys.\<close>

lemma addDiagnostic_keeps_reverse:
  "addDiagnostic fuel heap p d = Some (r, d') \<Longrightarrow> diagnosticReverseMap d q = Some j
     \<Longrightarrow> diagnosticReverseMap d' q = Some j"
  "addDiagnostics fuel heap ps acc d = Some (rs, d') \<Longrightarrow> diagnosticReverseMap d q = Some j
     \<Longrightarrow> diagnosticReverseMap d' q = Some j"
proof (induction fuel heap p d and fuel heap ps acc d arbitrary: r d' and rs d'
       rule: addDiagnostic_addDiagnostics.induct)
  case (1 fuel heap diagnostic d)
  show ?case
  proof (cases "diagnosticReverseMap d diagnostic")
    case (Some i)
    with "1.prems" show ?thesis by (simp add: addDiagnostic.simps)
  next
    case None
    from None "1.prems"(2) have ne: "q \<noteq> diagnostic" by auto
    show ?thesis
      using "1.prems" None ne "1.IH"
      by (auto simp: addDiagnostic.simps Let_def
               split: option.splits outcome.splits prod.splits nat.splits)
  qed
next
  case (2 fuel heap acc d)
  then show ?case by simp
next
  case (3 fuel heap x xs acc d)
  then show ?case
    by (auto split: option.splits outcome.splits prod.splits)
qed

text \<open>A call that returns an id has registered the diagnostic under that id.\<close>

lemma addDiagnostic_registers:
  assumes "addDiagnostic fuel heap p d = Some (Returned i, d')"
  shows "diagnosticReverseMap d' p = Some i"
proof (cases "diagnosticReverseMap d p")
  case (Some j)
  with assms show ?thesis by (simp add: addDiagnostic.simps)
next
  case None
  with assms obtain fuel' a where fuel: "fuel = Suc fuel'" and a: "heap p = Some a"
    by (cases fuel; cases "heap p") (auto simp: addDiagnostic.simps)
  define d1 where
    "d1 = d\<lparr>diagnosticReverseMap :=
              (diagnosticReverseMap d)(p \<mapsto> of_nat (card (dom (diagnosticMapById d)) + 1))\<rparr>"
  from assms None fuel a obtain mc d2 ri d3 where
    mc: "addDiagnostics fuel' heap (astMessageChain a) [] d1 = Some (Returned mc, d2)" and
    ri: "addDiagnostics fuel' heap (astRelatedInformation a) [] d2 = Some (Returned ri, d3)" and
    i: "i = of_nat (card (dom (diagnosticMapById d)) + 1)" and
    d': "diagnosticReverseMap d' = diagnosticReverseMap d3"
    by (auto simp: addDiagnostic.simps Let_def d1_def
             split: option.splits outcome.splits prod.splits)
  have "diagnosticReverseMap d1 p = Some i"
    by (simp add: d1_def i)
  then have "diagnosticReverseMap d2 p = Some i"
    by (rule addDiagnostic_keeps_reverse(2) [OF mc])
  then have "diagnosticReverseMap d3 p = Some i"
    by (rule addDiagnostic_keeps_reverse(2) [OF ri])
  with d' show ?thesis by simp
qed

text \<open>
  C10. A diagnostic that is already a key of the reverse map gets the id stored
  there, and neither map changes; and after a call that returned an id, any further
  call with the same diagnostic returns that id again and changes neither map.
\<close>

theorem addDiagnostic_idempotent:
  "(diagnosticReverseMap d diagnostic = Some i \<longrightarrow>
      addDiagnostic fuel heap diagnostic d = Some (Returned i, d)) \<and>
   (addDiagnostic fuel heap diagnostic d = Some (Returned i, d') \<longrightarrow>
      addDiagnostic fuel' heap diagnostic d' = Some (Returned i, d'))"
proof (intro conjI impI)
  assume "diagnosticReverseMap d diagnostic = Some i"
  then show "addDiagnostic fuel heap diagnostic d = Some (Returned i, d)"
    by (simp add: addDiagnostic.simps)
next
  assume "addDiagnostic fuel heap diagnostic d = Some (Returned i, d')"
  then have "diagnosticReverseMap d' diagnostic = Some i"
    by (rule addDiagnostic_registers)
  then show "addDiagnostic fuel' heap diagnostic d' = Some (Returned i, d')"
    by (simp add: addDiagnostic.simps)
qed

theorem addDiagnostic_idempotent_witness:
  "diagnosticReverseMap exMaps1 7 = Some 1 \<and>
   addDiagnostic 0 [7 \<mapsto> exDiag] 7 exMaps1 = Some (Returned 1, exMaps1) \<and>
   addDiagnostic 1 [7 \<mapsto> exDiag] 7 exMaps0 = Some (Returned 1, exMaps1) \<and>
   addDiagnostic 3 [7 \<mapsto> exDiag] 7 exMaps1 = Some (Returned 1, exMaps1)"
proof -
  have reg: "diagnosticReverseMap exMaps1 7 = Some 1"
    by (simp add: exMaps1_def)
  have first: "addDiagnostic 1 [7 \<mapsto> exDiag] 7 exMaps0 = Some (Returned 1, exMaps1)"
    by (simp add: addDiagnostic.simps exMaps0_def exMaps1_def exDiag_def Let_def)
  from reg first
    addDiagnostic_idempotent [of exMaps1 7 1 0 "[7 \<mapsto> exDiag]" exMaps1 3]
    addDiagnostic_idempotent [of exMaps0 7 1 1 "[7 \<mapsto> exDiag]" exMaps1 3]
  show ?thesis by simp
qed

end
